theory Spec2Isabelle
  imports Complex_Main "HOL-Library.Multiset"
begin

section \<open>Support sets of the NW head (nwhead/support.py)\<close>

text \<open>
  The three classes of \<^verbatim>\<open>support.py\<close> are embedded as records and functions over them.
  A method that assigns attributes takes the object and returns the updated object; a method
  that can raise returns \<open>error + result\<close>, with \<open>Inl\<close> carrying the Python exception.
  An attribute that no constructor assigns is an \<open>option\<close> field: \<open>None\<close> means that the
  attribute does not exist on the object, and reading it raises \<open>AttributeError\<close>.
  The classes of \<^verbatim>\<open>nwhead/utils.py\<close> (samplers, neighbour indexes, wrappers) and the
  clustering of scikit-learn are collaborators whose code is elsewhere: their operations
  are parameters, collected in records of functions.
\<close>

subsection \<open>Exceptions\<close>

datatype error =
    AssertionError
  | AttributeError string
  | NotImplementedError
  | KeyError
  | IndexError
  | TypeError
  | ValueError
  | RuntimeError
  | OtherError string

text \<open>The message that \<^verbatim>\<open>SupportSetEval.get_support\<close> attaches to the error it raises.\<close>

definition precompute_msg :: string where
  "precompute_msg = ''Did you run precompute()?''"

text \<open>Sequencing a fallible operation over a list: the first exception ends the loop.\<close>

fun map_err :: "('a \<Rightarrow> error + 'b) \<Rightarrow> 'a list \<Rightarrow> error + 'b list" where
  "map_err f [] = Inr []"
| "map_err f (x # xs) =
     (case f x of
        Inl e \<Rightarrow> Inl e
      | Inr y \<Rightarrow> (case map_err f xs of Inl e \<Rightarrow> Inl e | Inr ys \<Rightarrow> Inr (y # ys)))"

subsection \<open>Datasets and views\<close>

text \<open>
  A dataset is an indexable collection of inputs with a \<^verbatim>\<open>targets\<close> attribute.
  The constructor receives either one dataset or a Python list of datasets.
\<close>

record 'x dataset =
  items :: "'x list"
  targets :: "int list"

datatype 'x support_input = Single "'x dataset" | EnvList "'x dataset list"

text \<open>\<^verbatim>\<open>support_set.targets\<close>: a dataset has the attribute, a Python list has not.\<close>

fun input_targets :: "'x support_input \<Rightarrow> error + int list" where
  "input_targets (Single ds) = Inr (targets ds)"
| "input_targets (EnvList dss) = Inl (AttributeError ''targets'')"

text \<open>
  \<^verbatim>\<open>all(isinstance(d, Dataset) for d in support_set)\<close>: iterating one dataset yields its
  items, none of which is a dataset, so the test holds for it only when it has no item;
  every element of a list of datasets is a dataset.
\<close>

fun all_datasets :: "'x support_input \<Rightarrow> bool" where
  "all_datasets (Single ds) = (items ds = [])"
| "all_datasets (EnvList dss) = True"

text \<open>
  The views built over a dataset: the metadata wrapper of \<^verbatim>\<open>utils.py\<close>,
  \<^verbatim>\<open>torch.utils.data.Subset\<close> and \<^verbatim>\<open>torch.utils.data.ConcatDataset\<close>, the last two with the
  \<^verbatim>\<open>targets\<close> array that the code attaches to them.
\<close>

datatype 'x view =
    DatasetMetadata "'x dataset" "int list"
  | Subset "'x view" "nat list" "int list"
  | ConcatDataset "'x view list" "int list"

text \<open>
  Modelled from the spec: \<^verbatim>\<open>DatasetMetadata\<close> is defined in \<^verbatim>\<open>nwhead/utils.py\<close>. The spec
  describes a labeled dataset view as supporting index access to (input, label, metadata) and
  exposing a label array of the length of the view: the wrapper has the length and the labels
  of the dataset it wraps. A subset has one item per index; a concatenation has the items of
  all its parts.
\<close>

fun len_view :: "'x view \<Rightarrow> nat" where
  "len_view (DatasetMetadata ds md) = length (items ds)"
| "len_view (Subset v idx tg) = length idx"
| "len_view (ConcatDataset vs tg) = sum_list (map len_view vs)"

fun view_targets :: "'x view \<Rightarrow> int list" where
  "view_targets (DatasetMetadata ds md) = targets ds"
| "view_targets (Subset v idx tg) = tg"
| "view_targets (ConcatDataset vs tg) = tg"

subsection \<open>numpy and torch operations on one-dimensional integer arrays\<close>

text \<open>\<^verbatim>\<open>np.unique\<close>: the distinct values in ascending order.\<close>

definition np_unique :: "int list \<Rightarrow> int list" where
  "np_unique xs = sort (remdups xs)"

text \<open>\<^verbatim>\<open>(a == v).nonzero()[0]\<close>: the positions holding \<open>v\<close>, ascending.\<close>

definition nonzero_eq :: "int list \<Rightarrow> int \<Rightarrow> nat list" where
  "nonzero_eq a v = filter (\<lambda>i. a ! i = v) [0..<length a]"

text \<open>\<^verbatim>\<open>a[indices]\<close> with an index array: \<^verbatim>\<open>IndexError\<close> when an index is out of bounds.\<close>

definition take_indices :: "'a list \<Rightarrow> nat list \<Rightarrow> error + 'a list" where
  "take_indices a idx =
     (if list_all (\<lambda>i. i < length a) idx then Inr (map (\<lambda>i. a ! i) idx) else Inl IndexError)"

text \<open>\<^verbatim>\<open>a[mask == c]\<close> with a boolean mask of the length of \<open>a\<close>.\<close>

definition mask_select :: "'a list \<Rightarrow> int list \<Rightarrow> int \<Rightarrow> 'a list" where
  "mask_select a labels c = map fst (filter (\<lambda>p. snd p = c) (zip a labels))"

text \<open>\<^verbatim>\<open>torch.unique(sy, return_counts=True)\<close>.\<close>

definition torch_unique :: "int list \<Rightarrow> int list \<times> int list" where
  "torch_unique sy =
     (let u = sort (remdups sy) in (u, map (\<lambda>v. int (count_list sy v)) u))"

text \<open>\<^verbatim>\<open>torch.arange(n)\<close>.\<close>

definition arange :: "nat \<Rightarrow> int list" where
  "arange n = map int [0..<n]"

subsection \<open>SupportSet\<close>

record 'x SupportSet =
  y_array :: "int list"
  n_classes :: nat
  env_array :: "int list"
  combined_dataset :: "'x view"
  env_datasets :: "'x view list"
  env_map :: "int \<rightharpoonup> nat"

text \<open>
  \<^verbatim>\<open>_combine_env_datasets\<close>. The label arrays are read from \<^verbatim>\<open>self.env_datasets\<close>, not from
  the argument. \<^verbatim>\<open>ConcatDataset\<close> asserts that it is given at least one dataset and
  \<^verbatim>\<open>np.concatenate\<close> raises \<^verbatim>\<open>ValueError\<close> on an empty list.
\<close>

definition combine_env_datasets ::
  "('x, 'z) SupportSet_scheme \<Rightarrow> 'x view list \<Rightarrow> error + ('x view \<times> ('x, 'z) SupportSet_scheme)"
where
  "combine_env_datasets self envs =
     (let self1 = self\<lparr>env_map := fold (\<lambda>i m. m(int i \<mapsto> i)) [0..<length envs] Map.empty\<rparr>
      in if envs = [] then Inl AssertionError
         else if env_datasets self1 = [] then Inl ValueError
         else
           let tg = concat (map view_targets (env_datasets self1));
               cd = ConcatDataset envs tg
           in if len_view cd = length tg then Inr (cd, self1) else Inl AssertionError)"

text \<open>
  \<^verbatim>\<open>_separate_env_datasets\<close>: the loop over \<^verbatim>\<open>enumerate(np.unique(self.env_array))\<close>, with
  the counter, the list built so far and the object (whose \<^verbatim>\<open>env_map\<close> is assigned in
  the loop) as loop state.
\<close>

fun separate_loop ::
  "'x view \<Rightarrow> nat \<Rightarrow> int list \<Rightarrow> 'x view list \<Rightarrow> ('x, 'z) SupportSet_scheme \<Rightarrow>
     error + ('x view list \<times> ('x, 'z) SupportSet_scheme)"
where
  "separate_loop cd i [] envs self = Inr (envs, self)"
| "separate_loop cd i (attr # rest) envs self =
     (let self1 = self\<lparr>env_map := (env_map self)(attr \<mapsto> i)\<rparr>;
          indices = nonzero_eq (env_array self1) attr
      in case take_indices (y_array self1) indices of
           Inl e \<Rightarrow> Inl e
         | Inr tg \<Rightarrow> separate_loop cd (Suc i) rest (envs @ [Subset cd indices tg]) self1)"

definition separate_env_datasets ::
  "('x, 'z) SupportSet_scheme \<Rightarrow> 'x view \<Rightarrow> error + ('x view list \<times> ('x, 'z) SupportSet_scheme)"
where
  "separate_env_datasets self cd =
     separate_loop cd 0 (np_unique (env_array self)) [] (self\<lparr>env_map := Map.empty\<rparr>)"

text \<open>
  \<^verbatim>\<open>SupportSet.__init__\<close>. The first statement reads \<^verbatim>\<open>support_set.targets\<close>, whatever the
  shape of the input, so for a Python list the constructor ends there with
  \<^verbatim>\<open>AttributeError\<close> and the cases for a list below that point are never reached. The
  branch guarded by \<^verbatim>\<open>all(isinstance(d, Dataset) for d in support_set)\<close> is entered by one
  dataset without items: its loop over the items adds nothing to \<^verbatim>\<open>env_array\<close>, and the
  wrapper that \<^verbatim>\<open>_combine_env_datasets\<close> iterates yields no dataset. Attributes that the
  constructor assigns after a method call start as \<open>[]\<close> and the empty map.
\<close>

definition SupportSet_init ::
  "'x support_input \<Rightarrow> nat \<Rightarrow> int list option \<Rightarrow> error + 'x SupportSet"
where
  "SupportSet_init support_set n ea_opt =
     (case input_targets support_set of
        Inl e \<Rightarrow> Inl e
      | Inr ya \<Rightarrow>
         (case ea_opt of
            Some ea \<Rightarrow>
              (case support_set of
                 EnvList dss \<Rightarrow> Inl (AttributeError ''targets'')
               | Single ds \<Rightarrow>
                  (let cd = DatasetMetadata ds ea;
                       self = \<lparr>y_array = ya, n_classes = n, env_array = ea,
                               combined_dataset = cd, env_datasets = [], env_map = Map.empty\<rparr>
                   in case separate_env_datasets self cd of
                        Inl e \<Rightarrow> Inl e
                      | Inr (envs, self1) \<Rightarrow> Inr (self1\<lparr>env_datasets := envs\<rparr>)))
          | None \<Rightarrow>
              (case support_set of
                 EnvList dss \<Rightarrow> Inl (AttributeError ''targets'')
               | Single ds \<Rightarrow>
                  if all_datasets support_set then
                    (let self = \<lparr>y_array = ya, n_classes = n, env_array = [],
                                 combined_dataset = DatasetMetadata ds [], env_datasets = [],
                                 env_map = Map.empty\<rparr>
                     in case combine_env_datasets self [] of
                          Inl e \<Rightarrow> Inl e
                        | Inr (cd, self1) \<Rightarrow> Inr (self1\<lparr>combined_dataset := cd\<rparr>))
                  else
                    (let ea = replicate (length (items ds)) 0;
                         cd = DatasetMetadata ds ea;
                         self = \<lparr>y_array = ya, n_classes = n, env_array = ea,
                                 combined_dataset = cd, env_datasets = [], env_map = Map.empty\<rparr>
                     in case separate_env_datasets self cd of
                          Inl e \<Rightarrow> Inl e
                        | Inr (envs, self1) \<Rightarrow> Inr (self1\<lparr>env_datasets := envs\<rparr>)))))"

subsection \<open>SupportSetTrain\<close>

text \<open>
  The sampler \<^verbatim>\<open>InfiniteUniformClassLoader\<close> of \<^verbatim>\<open>utils.py\<close>: its constructor, \<^verbatim>\<open>iter\<close> on it
  and its \<^verbatim>\<open>next\<close>, which takes an optional batch of labels and returns a batch
  (inputs, labels, metadata) together with the advanced sampler.
\<close>

record ('d, 'it, 'sx, 'sm) sampler_ops =
  new_loader :: "'d \<Rightarrow> nat \<Rightarrow> nat option \<Rightarrow> error + 'it"
  iter_loader :: "'it \<Rightarrow> 'it"
  next_batch :: "'it \<Rightarrow> int list option \<Rightarrow> error + (('sx \<times> int list \<times> 'sm) \<times> 'it)"

text \<open>\<^verbatim>\<open>self.train_iter\<close> is one loader or a Python list of iterators.\<close>

datatype 'it train_iters = Loader 'it | IterList "'it list"

record ('x, 'it) SupportSetTrain = "'x SupportSet" +
  train_type :: string
  n_shot :: nat
  n_way :: "nat option"
  train_iter :: "'it train_iters"
  num_per_class :: "int option"

text \<open>\<^verbatim>\<open>_build_iter\<close>.\<close>

definition build_iter ::
  "('x view, 'it, 'sx, 'sm) sampler_ops \<Rightarrow> ('x, 'it) SupportSetTrain \<Rightarrow> error + 'it train_iters"
where
  "build_iter ops self =
     (if train_type self = ''random'' then
        (case new_loader ops (combined_dataset self) (n_shot self) (n_way self) of
           Inl e \<Rightarrow> Inl e
         | Inr l \<Rightarrow> Inr (Loader l))
      else
        (case map_err (\<lambda>env. case new_loader ops env (n_shot self) None of
                                Inl e \<Rightarrow> Inl e
                              | Inr l \<Rightarrow> Inr (iter_loader ops l))
                      (env_datasets self) of
           Inl e \<Rightarrow> Inl e
         | Inr its \<Rightarrow> Inr (IterList its)))"

text \<open>
  \<^verbatim>\<open>SupportSetTrain.__init__\<close>. No statement of the class assigns \<^verbatim>\<open>num_per_class\<close>, so the
  constructed object does not have it.
\<close>

definition SupportSetTrain_init ::
  "('x view, 'it, 'sx, 'sm) sampler_ops \<Rightarrow> 'x support_input \<Rightarrow> nat \<Rightarrow> string \<Rightarrow> nat \<Rightarrow>
     nat option \<Rightarrow> int list option \<Rightarrow> error + ('x, 'it) SupportSetTrain"
where
  "SupportSetTrain_init ops support_set n tt ns nw ea_opt =
     (case SupportSet_init support_set n ea_opt of
        Inl e \<Rightarrow> Inl e
      | Inr base \<Rightarrow>
         (let self = \<lparr>y_array = y_array base, n_classes = n_classes base,
                       env_array = env_array base, combined_dataset = combined_dataset base,
                       env_datasets = env_datasets base, env_map = env_map base,
                       train_type = tt, n_shot = ns, n_way = nw,
                       train_iter = IterList [], num_per_class = None\<rparr>
          in case build_iter ops self of
               Inl e \<Rightarrow> Inl e
             | Inr ti \<Rightarrow> Inr (self\<lparr>train_iter := ti\<rparr>)))"

text \<open>
  \<^verbatim>\<open>_verify_sy\<close>. The branch for \<^verbatim>\<open>'unbalanced'\<close> is \<^verbatim>\<open>pass\<close>: both branches continue
  with the two assertions. The second assertion reads \<^verbatim>\<open>self.num_per_class\<close>.
\<close>

definition verify_counts :: "('x, 'it) SupportSetTrain \<Rightarrow> int list \<Rightarrow> error + unit" where
  "verify_counts self sy =
     (case torch_unique sy of
        (unique_labels, counts) \<Rightarrow>
          if unique_labels \<noteq> arange (n_classes self) then Inl AssertionError
          else
            (case num_per_class self of
               None \<Rightarrow> Inl (AttributeError ''num_per_class'')
             | Some k \<Rightarrow>
                 if counts \<noteq> map (\<lambda>u. 1 * k) unique_labels then Inl AssertionError
                 else Inr ()))"

definition verify_sy :: "('x, 'it) SupportSetTrain \<Rightarrow> int list \<Rightarrow> error + unit" where
  "verify_sy self sy =
     (if train_type self = ''unbalanced'' then verify_counts self sy else verify_counts self sy)"

text \<open>
  The three ways \<^verbatim>\<open>get_support\<close> draws a batch. \<open>pick\<close> is the draw of
  \<^verbatim>\<open>np.random.choice\<close>, reduced to a position of the list.
\<close>

definition next_of_list ::
  "('d, 'it, 'sx, 'sm) sampler_ops \<Rightarrow> ('x, 'it) SupportSetTrain \<Rightarrow> 'it list \<Rightarrow> nat \<Rightarrow>
     error + (('sx \<times> int list \<times> 'sm) \<times> ('x, 'it) SupportSetTrain)"
where
  "next_of_list ops self its i =
     (case next_batch ops (its ! i) None of
        Inl e \<Rightarrow> Inl e
      | Inr (b, it') \<Rightarrow> Inr (b, self\<lparr>train_iter := IterList (its[i := it'])\<rparr>))"

definition sample_support ::
  "('d, 'it, 'sx, 'sm) sampler_ops \<Rightarrow> ('x, 'it) SupportSetTrain \<Rightarrow> int list \<Rightarrow> int list \<Rightarrow> nat \<Rightarrow>
     error + (('sx \<times> int list \<times> 'sm) \<times> ('x, 'it) SupportSetTrain)"
where
  "sample_support ops self y env_index pick =
     (if train_type self = ''mixmatch'' then
        (case train_iter self of
           Loader l \<Rightarrow> Inl ValueError
         | IterList its \<Rightarrow>
             if its = [] then Inl ValueError
             else next_of_list ops self its (pick mod length its))
      else if train_type self = ''match'' then
        (case env_index of
           [] \<Rightarrow> Inl IndexError
         | e0 # _ \<Rightarrow>
             if env_index \<noteq> map (\<lambda>_. 1 * e0) env_index then Inl AssertionError
             else
               (case env_map self e0 of
                  None \<Rightarrow> Inl KeyError
                | Some meta_idx \<Rightarrow>
                   (case train_iter self of
                      Loader l \<Rightarrow> Inl TypeError
                    | IterList its \<Rightarrow>
                        if meta_idx < length its then next_of_list ops self its meta_idx
                        else Inl IndexError)))
      else
        (case train_iter self of
           IterList its \<Rightarrow> Inl (AttributeError ''next'')
         | Loader l \<Rightarrow>
            (case next_batch ops l (Some y) of
               Inl e \<Rightarrow> Inl e
             | Inr (b, l') \<Rightarrow> Inr (b, self\<lparr>train_iter := Loader l'\<rparr>))))"

text \<open>
  \<^verbatim>\<open>SupportSetTrain.get_support\<close>. \<open>u\<close> is the value of \<^verbatim>\<open>random.random()\<close>; the audit runs
  when it is below one hundredth.
\<close>

definition get_support ::
  "('d, 'it, 'sx, 'sm) sampler_ops \<Rightarrow> ('x, 'it) SupportSetTrain \<Rightarrow> int list \<Rightarrow> int list \<Rightarrow>
     nat \<Rightarrow> real \<Rightarrow> error + (('sx \<times> int list \<times> 'sm) \<times> ('x, 'it) SupportSetTrain)"
where
  "get_support ops self y env_index pick u =
     (case sample_support ops self y env_index pick of
        Inl e \<Rightarrow> Inl e
      | Inr ((sx, sy, sm), self1) \<Rightarrow>
          if u < 1 / 100 then
            (case verify_sy self1 sy of
               Inl e \<Rightarrow> Inl e
             | Inr _ \<Rightarrow> Inr ((sx, sy, sm), self1))
          else Inr ((sx, sy, sm), self1))"

subsection \<open>SupportSetEval\<close>

text \<open>
  The collaborators of the evaluation provider: \<^verbatim>\<open>FullDataset\<close>, the balanced sampler over a
  \<^verbatim>\<open>FeatureDataset\<close> (constructed, then passed to \<^verbatim>\<open>iter\<close>), the two neighbour indexes of
  \<^verbatim>\<open>utils.py\<close>, k-means of scikit-learn (the fitted cluster centres) and
  \<^verbatim>\<open>torch.cdist(...).argmin(dim=-1)\<close>. A query is absent (\<^verbatim>\<open>x=None\<close>) or a raw input.
\<close>

record ('x, 'f, 'm, 'fd, 'it, 'knn, 'hnsw) eval_ops =
  FullDataset :: "'x view \<Rightarrow> nat \<Rightarrow> error + 'fd"
  KMeans_fit :: "nat \<Rightarrow> 'f list \<Rightarrow> error + 'f list"
  cdist_argmin :: "'f list \<Rightarrow> 'f list \<Rightarrow> nat list"
  feature_iter :: "'f list \<times> int list \<times> 'm \<Rightarrow> nat \<Rightarrow> error + 'it"
  feature_next :: "'it \<Rightarrow> error + (('f list \<times> int list \<times> 'm) \<times> 'it)"
  KNN_new :: "'f list \<Rightarrow> int list \<Rightarrow> nat \<Rightarrow> error + 'knn"
  KNN_call :: "'knn \<Rightarrow> 'x option \<Rightarrow> error + ('f list \<times> int list)"
  HNSW_new :: "'f list \<Rightarrow> int list \<Rightarrow> nat \<Rightarrow> error + 'hnsw"
  HNSW_call :: "'hnsw \<Rightarrow> 'x option \<Rightarrow> error + ('f list \<times> int list)"

text \<open>\<^verbatim>\<open>torch.utils.data.DataLoader(env, batch_size, shuffle, num_workers)\<close>.\<close>

datatype 'fd data_loader = DataLoader 'fd nat bool nat

record ('x, 'f, 'm, 'fd, 'it, 'knn, 'hnsw) SupportSetEval = "'x SupportSet" +
  n_shot_random :: nat
  n_shot_full :: nat
  n_shot_cluster :: nat
  n_neighbors :: nat
  full_datasets :: "'fd list"
  support_loaders :: "'fd data_loader list"
  full_feat :: "'f list option"
  full_y :: "int list option"
  full_meta :: "'m option"
  full_feat_sep :: "'f list list option"
  full_y_sep :: "int list list option"
  full_meta_sep :: "'m list option"
  cluster_feat :: "'f list option"
  cluster_y :: "int list option"
  random_iter :: "'it option"
  knn :: "'knn option"
  hnsw :: "'hnsw option"

text \<open>\<^verbatim>\<open>_build_full_loader\<close>: returns the loaders and assigns \<^verbatim>\<open>self.full_datasets\<close>.\<close>

definition build_full_loader ::
  "('x, 'f, 'm, 'fd, 'it, 'knn, 'hnsw) eval_ops \<Rightarrow> ('x, 'f, 'm, 'fd, 'it, 'knn, 'hnsw) SupportSetEval \<Rightarrow>
     error + ('fd data_loader list \<times> ('x, 'f, 'm, 'fd, 'it, 'knn, 'hnsw) SupportSetEval)"
where
  "build_full_loader ops self =
     (case map_err (\<lambda>env. FullDataset ops env (n_shot_full self)) (env_datasets self) of
        Inl e \<Rightarrow> Inl e
      | Inr fds \<Rightarrow>
          Inr (map (\<lambda>env. DataLoader env 128 False 0) fds, self\<lparr>full_datasets := fds\<rparr>))"

text \<open>
  \<^verbatim>\<open>SupportSetEval.__init__\<close>. The attributes that \<^verbatim>\<open>build_infer_iters\<close> assigns do not
  exist on the constructed object.
\<close>

definition SupportSetEval_init ::
  "('x, 'f, 'm, 'fd, 'it, 'knn, 'hnsw) eval_ops \<Rightarrow> 'x support_input \<Rightarrow> nat \<Rightarrow> nat \<Rightarrow> nat \<Rightarrow>
     nat \<Rightarrow> nat \<Rightarrow> int list option \<Rightarrow> error + ('x, 'f, 'm, 'fd, 'it, 'knn, 'hnsw) SupportSetEval"
where
  "SupportSetEval_init ops support_set n nsr nsf nsc nn ea_opt =
     (case SupportSet_init support_set n ea_opt of
        Inl e \<Rightarrow> Inl e
      | Inr base \<Rightarrow>
         (let self = \<lparr>y_array = y_array base, n_classes = n_classes base,
                       env_array = env_array base, combined_dataset = combined_dataset base,
                       env_datasets = env_datasets base, env_map = env_map base,
                       n_shot_random = nsr, n_shot_full = nsf, n_shot_cluster = nsc,
                       n_neighbors = nn, full_datasets = [], support_loaders = [],
                       full_feat = None, full_y = None, full_meta = None,
                       full_feat_sep = None, full_y_sep = None, full_meta_sep = None,
                       cluster_feat = None, cluster_y = None, random_iter = None,
                       knn = None, hnsw = None\<rparr>
          in case build_full_loader ops self of
               Inl e \<Rightarrow> Inl e
             | Inr (loaders, self1) \<Rightarrow> Inr (self1\<lparr>support_loaders := loaders\<rparr>)))"

text \<open>
  \<^verbatim>\<open>_compute_clusters\<close>: the loop over \<^verbatim>\<open>np.unique(labels)\<close> with the two lists it
  extends, then \<^verbatim>\<open>torch.cat\<close>, which raises \<^verbatim>\<open>RuntimeError\<close> on an empty list. A boolean
  mask of another length than the indexed array raises \<^verbatim>\<open>IndexError\<close>. With
  \<^verbatim>\<open>closest\<close>, the rows of the support features nearest to the centres are taken (the
  wrapping of the index for one cluster changes the shape of the index, not the rows).
\<close>

fun cluster_loop ::
  "('x, 'f, 'm, 'fd, 'it, 'knn, 'hnsw) eval_ops \<Rightarrow> bool \<Rightarrow> 'f list \<Rightarrow> int list \<Rightarrow> nat \<Rightarrow>
     int list \<Rightarrow> 'f list list \<Rightarrow> int list \<Rightarrow> error + ('f list list \<times> int list)"
where
  "cluster_loop ops closest embeddings labels n_clusters [] sfeat slabel = Inr (sfeat, slabel)"
| "cluster_loop ops closest embeddings labels n_clusters (c # cs) sfeat slabel =
     (if length labels \<noteq> length embeddings then Inl IndexError
      else
        let embeddings_class = mask_select embeddings labels c;
            img_ids_class = mask_select [0..<length embeddings] labels c
        in case KMeans_fit ops n_clusters embeddings_class of
             Inl e \<Rightarrow> Inl e
           | Inr centroids \<Rightarrow>
               let slabel1 = slabel @ replicate n_clusters c
               in if closest then
                    (case take_indices img_ids_class (cdist_argmin ops centroids embeddings_class) of
                       Inl e \<Rightarrow> Inl e
                     | Inr dataset_indices \<Rightarrow>
                        (case take_indices embeddings dataset_indices of
                           Inl e \<Rightarrow> Inl e
                         | Inr closest_embedding \<Rightarrow>
                             cluster_loop ops closest embeddings labels n_clusters cs
                               (sfeat @ [closest_embedding]) slabel1))
                  else
                    cluster_loop ops closest embeddings labels n_clusters cs
                      (sfeat @ [centroids]) slabel1)"

definition compute_clusters ::
  "('x, 'f, 'm, 'fd, 'it, 'knn, 'hnsw) eval_ops \<Rightarrow> ('x, 'f, 'm, 'fd, 'it, 'knn, 'hnsw) SupportSetEval \<Rightarrow>
     bool \<Rightarrow> error + ('f list \<times> int list)"
where
  "compute_clusters ops self closest =
     (case full_feat self of
        None \<Rightarrow> Inl (AttributeError ''full_feat'')
      | Some embeddings \<Rightarrow>
         (case full_y self of
            None \<Rightarrow> Inl (AttributeError ''full_y'')
          | Some labels \<Rightarrow>
             (case cluster_loop ops closest embeddings labels (n_shot_cluster self)
                     (np_unique labels) [] [] of
                Inl e \<Rightarrow> Inl e
              | Inr (sfeat, slabel) \<Rightarrow>
                  if sfeat = [] then Inl RuntimeError else Inr (concat sfeat, slabel))))"

text \<open>\<^verbatim>\<open>build_infer_iters\<close>.\<close>

definition build_infer_iters ::
  "('x, 'f, 'm, 'fd, 'it, 'knn, 'hnsw) eval_ops \<Rightarrow> ('x, 'f, 'm, 'fd, 'it, 'knn, 'hnsw) SupportSetEval \<Rightarrow>
     'f list \<Rightarrow> int list \<Rightarrow> 'm \<Rightarrow> 'f list list \<Rightarrow> int list list \<Rightarrow> 'm list \<Rightarrow>
     error + ('x, 'f, 'm, 'fd, 'it, 'knn, 'hnsw) SupportSetEval"
where
  "build_infer_iters ops self sfeat sy smeta sfeat_env sy_env smeta_env =
     (let self1 = self\<lparr>full_feat := Some sfeat, full_y := Some sy, full_meta := Some smeta,
                        full_feat_sep := Some sfeat_env, full_y_sep := Some sy_env,
                        full_meta_sep := Some smeta_env\<rparr>
      in case compute_clusters ops self1 False of
           Inl e \<Rightarrow> Inl e
         | Inr (cf, cy) \<Rightarrow>
            (let self2 = self1\<lparr>cluster_feat := Some cf, cluster_y := Some cy\<rparr>
             in case feature_iter ops (sfeat, sy, smeta) (n_shot_random self2) of
                  Inl e \<Rightarrow> Inl e
                | Inr it \<Rightarrow>
                   (let self3 = self2\<lparr>random_iter := Some it\<rparr>
                    in case KNN_new ops sfeat sy (n_neighbors self3) of
                         Inl e \<Rightarrow> Inl e
                       | Inr k \<Rightarrow>
                          (case HNSW_new ops sfeat sy (n_neighbors self3) of
                             Inl e \<Rightarrow> Inl e
                           | Inr h \<Rightarrow> Inr (self3\<lparr>knn := Some k, hnsw := Some h\<rparr>)))))"

text \<open>
  What \<^verbatim>\<open>get_support\<close> returns: a feature array with its labels, or for \<^verbatim>\<open>'ensemble'\<close>
  the lists of per-environment arrays.
\<close>

datatype 'f support = Flat "'f list" "int list" | PerEnv "'f list list" "int list list"

text \<open>Reading an attribute that \<^verbatim>\<open>build_infer_iters\<close> assigns.\<close>

definition getattr :: "string \<Rightarrow> 'a option \<Rightarrow> error + 'a" where
  "getattr name v = (case v of None \<Rightarrow> Inl (AttributeError name) | Some a \<Rightarrow> Inr a)"

text \<open>The body of the \<^verbatim>\<open>try\<close> statement of \<^verbatim>\<open>SupportSetEval.get_support\<close>.\<close>

definition dispatch_mode ::
  "('x, 'f, 'm, 'fd, 'it, 'knn, 'hnsw) eval_ops \<Rightarrow> ('x, 'f, 'm, 'fd, 'it, 'knn, 'hnsw) SupportSetEval \<Rightarrow>
     string \<Rightarrow> 'x option \<Rightarrow> error + ('f support \<times> ('x, 'f, 'm, 'fd, 'it, 'knn, 'hnsw) SupportSetEval)"
where
  "dispatch_mode ops self mode x =
     (if mode = ''random'' then
        (case getattr ''random_iter'' (random_iter self) of
           Inl e \<Rightarrow> Inl e
         | Inr it \<Rightarrow>
            (case feature_next ops it of
               Inl e \<Rightarrow> Inl e
             | Inr ((sfeat, sy, _), it') \<Rightarrow> Inr (Flat sfeat sy, self\<lparr>random_iter := Some it'\<rparr>)))
      else if mode = ''full'' then
        (case getattr ''full_feat'' (full_feat self) of
           Inl e \<Rightarrow> Inl e
         | Inr sfeat \<Rightarrow>
            (case getattr ''full_y'' (full_y self) of
               Inl e \<Rightarrow> Inl e
             | Inr sy \<Rightarrow> Inr (Flat sfeat sy, self)))
      else if mode = ''cluster'' then
        (case getattr ''cluster_feat'' (cluster_feat self) of
           Inl e \<Rightarrow> Inl e
         | Inr sfeat \<Rightarrow>
            (case getattr ''cluster_y'' (cluster_y self) of
               Inl e \<Rightarrow> Inl e
             | Inr sy \<Rightarrow> Inr (Flat sfeat sy, self)))
      else if mode = ''ensemble'' then
        (case getattr ''full_feat_sep'' (full_feat_sep self) of
           Inl e \<Rightarrow> Inl e
         | Inr sfeat \<Rightarrow>
            (case getattr ''full_y_sep'' (full_y_sep self) of
               Inl e \<Rightarrow> Inl e
             | Inr sy \<Rightarrow> Inr (PerEnv sfeat sy, self)))
      else if mode = ''knn'' then
        (case getattr ''knn'' (knn self) of
           Inl e \<Rightarrow> Inl e
         | Inr k \<Rightarrow>
            (case KNN_call ops k x of
               Inl e \<Rightarrow> Inl e
             | Inr (sfeat, sy) \<Rightarrow> Inr (Flat sfeat sy, self)))
      else if mode = ''hnsw'' then
        (case getattr ''hnsw'' (hnsw self) of
           Inl e \<Rightarrow> Inl e
         | Inr h \<Rightarrow>
            (case HNSW_call ops h x of
               Inl e \<Rightarrow> Inl e
             | Inr (sfeat, sy) \<Rightarrow> Inr (Flat sfeat sy, self)))
      else Inl NotImplementedError)"

text \<open>
  \<^verbatim>\<open>SupportSetEval.get_support\<close>: the \<^verbatim>\<open>except AttributeError\<close> clause raises a new
  \<^verbatim>\<open>AttributeError\<close> with the fixed message; every other exception passes through.
\<close>

definition get_support_eval ::
  "('x, 'f, 'm, 'fd, 'it, 'knn, 'hnsw) eval_ops \<Rightarrow> ('x, 'f, 'm, 'fd, 'it, 'knn, 'hnsw) SupportSetEval \<Rightarrow>
     string \<Rightarrow> 'x option \<Rightarrow> error + ('f support \<times> ('x, 'f, 'm, 'fd, 'it, 'knn, 'hnsw) SupportSetEval)"
where
  "get_support_eval ops self mode x =
     (case dispatch_mode ops self mode x of
        Inl (AttributeError msg) \<Rightarrow> Inl (AttributeError precompute_msg)
      | Inl e \<Rightarrow> Inl e
      | Inr r \<Rightarrow> Inr r)"

subsection \<open>Objects in use\<close>

text \<open>
  The training providers that a program can hold: those returned by the constructor, and
  those left by a call of \<^verbatim>\<open>get_support\<close> that returned.
\<close>

inductive constructed_train ::
  "('x view, 'it, 'sx, 'sm) sampler_ops \<Rightarrow> ('x, 'it) SupportSetTrain \<Rightarrow> bool"
  for ops :: "('x view, 'it, 'sx, 'sm) sampler_ops"
where
  by_init:
    "SupportSetTrain_init ops support_set n tt ns nw ea_opt = Inr self \<Longrightarrow> constructed_train ops self"
| by_get_support:
    "constructed_train ops self \<Longrightarrow> get_support ops self y env_index pick u = Inr (b, self1) \<Longrightarrow>
       constructed_train ops self1"

subsection \<open>Concrete collaborators and objects\<close>

text \<open>
  A dataset of six items in three classes and two environments (ids 0 and 2), two samplers
  that count their draws, and neighbour indexes that fail on an absent query. The spec
  describes the \<^verbatim>\<open>next\<close> of the balanced sampler as optionally parameterized by a target
  label, returning a batch that contains that label: the first sampler returns the labels of
  its dataset, or the labels it is asked for. The second one returns the labels of its
  dataset whatever it is asked for.
\<close>

definition demo_ds :: "nat dataset" where
  "demo_ds = \<lparr>items = [10, 11, 12, 13, 14, 15], targets = [0, 1, 2, 0, 1, 2]\<rparr>"

definition demo_env :: "int list" where
  "demo_env = [0, 2, 0, 2, 2, 0]"

definition demo_sampler :: "(nat view, int list \<times> nat, nat list, int list) sampler_ops" where
  "demo_sampler =
     \<lparr>new_loader = (\<lambda>d ns nw. Inr (view_targets d, 0)),
      iter_loader = (\<lambda>l. l),
      next_batch = (\<lambda>it y. Inr (([], (case y of None \<Rightarrow> fst it | Some ys \<Rightarrow> ys), []),
                                  (fst it, Suc (snd it))))\<rparr>"

definition demo_uniform_sampler ::
  "(nat view, int list \<times> nat, nat list, int list) sampler_ops"
where
  "demo_uniform_sampler =
     \<lparr>new_loader = (\<lambda>d ns nw. Inr (view_targets d, 0)),
      iter_loader = (\<lambda>l. l),
      next_batch = (\<lambda>it y. Inr (([], fst it, []), (fst it, Suc (snd it))))\<rparr>"

definition demo_train :: "string \<Rightarrow> error + (nat, int list \<times> nat) SupportSetTrain" where
  "demo_train tt = SupportSetTrain_init demo_sampler (Single demo_ds) 3 tt 1 None (Some demo_env)"

definition demo_eval_ops ::
  "(nat, int, unit, nat view \<times> nat, nat, int list \<times> int list, int list \<times> int list) eval_ops"
where
  "demo_eval_ops =
     \<lparr>FullDataset = (\<lambda>v n. Inr (v, n)),
      KMeans_fit = (\<lambda>k vs. if length vs < k then Inl ValueError else Inr (take k vs)),
      cdist_argmin = (\<lambda>cs es. map (\<lambda>_. 0) cs),
      feature_iter = (\<lambda>d n. Inr 0),
      feature_next = (\<lambda>it. Inr (([], [], ()), Suc it)),
      KNN_new = (\<lambda>f y n. Inr (take n f, take n y)),
      KNN_call = (\<lambda>k q. case q of None \<Rightarrow> Inl (AttributeError ''unsqueeze'') | Some _ \<Rightarrow> Inr k),
      HNSW_new = (\<lambda>f y n. Inr (take n f, take n y)),
      HNSW_call = (\<lambda>k q. case q of None \<Rightarrow> Inl ValueError | Some _ \<Rightarrow> Inr k)\<rparr>"

definition demo_eval_new ::
  "error + (nat, int, unit, nat view \<times> nat, nat, int list \<times> int list, int list \<times> int list) SupportSetEval"
where
  "demo_eval_new = SupportSetEval_init demo_eval_ops (Single demo_ds) 3 1 1 2 2 (Some demo_env)"

definition demo_eval_ready ::
  "error + (nat, int, unit, nat view \<times> nat, nat, int list \<times> int list, int list \<times> int list) SupportSetEval"
where
  "demo_eval_ready =
     (case demo_eval_new of
        Inl e \<Rightarrow> Inl e
      | Inr s \<Rightarrow>
          build_infer_iters demo_eval_ops s [5, 6, 7, 8, 9, 10] [0, 1, 2, 0, 1, 2] ()
            [[5, 7, 10], [6, 8, 9]] [[0, 2, 2], [1, 0, 1]] [(), ()])"

text \<open>
  The view that one round of the loop of \<^verbatim>\<open>_separate_env_datasets\<close> appends for the
  environment id \<open>a\<close>: the subset at the positions of \<open>a\<close> with the labels at these positions.
\<close>

definition env_subset :: "'x view \<Rightarrow> int list \<Rightarrow> int list \<Rightarrow> int \<Rightarrow> 'x view" where
  "env_subset cd ea ya a = Subset cd (nonzero_eq ea a) (map (\<lambda>j. ya ! j) (nonzero_eq ea a))"

text \<open>An environment array for the six items that is in ascending order.\<close>

definition demo_sorted_env :: "int list" where
  "demo_sorted_env = [0, 0, 0, 2, 2, 2]"

section \<open>Properties\<close>

subsection \<open>Evaluation of the concrete objects\<close>

lemma sum_is_Inr: "\<not> isl r \<Longrightarrow> r = Inr (projr r)"
  by (cases r) simp_all

lemma demo_eval_new_ok: "\<not> isl demo_eval_new"
  by code_simp

lemma demo_eval_ready_ok: "\<not> isl demo_eval_ready"
  by code_simp

lemma demo_knn_absent_query:
  "(case knn (projr demo_eval_ready) of None \<Rightarrow> False
    | Some k \<Rightarrow> KNN_call demo_eval_ops k None = Inl (AttributeError ''unsqueeze''))"
  by code_simp

lemma demo_hnsw_absent_query:
  "(case hnsw (projr demo_eval_ready) of None \<Rightarrow> False
    | Some h \<Rightarrow> HNSW_call demo_eval_ops h None = Inl ValueError)"
  by code_simp

subsection \<open>The evaluation provider: dispatch on the mode\<close>

lemma unsupported_mode_raises:
  assumes "mode \<notin> {''random'', ''full'', ''cluster'', ''ensemble'', ''knn'', ''hnsw''}"
  shows "get_support_eval ops self mode x = Inl NotImplementedError"
  using assms by (simp add: get_support_eval_def dispatch_mode_def)

lemma init_eval_fields:
  assumes "SupportSetEval_init ops inp n nsr nsf nsc nn ea = Inr s"
  shows "full_feat s = None \<and> full_y s = None \<and> cluster_feat s = None \<and> cluster_y s = None
     \<and> full_feat_sep s = None \<and> full_y_sep s = None \<and> random_iter s = None
     \<and> knn s = None \<and> hnsw s = None"
  using assms
  by (auto simp: SupportSetEval_init_def build_full_loader_def Let_def split: sum.splits prod.splits)

lemma dispatch_random_error:
  "random_iter self = Some it \<Longrightarrow> feature_next ops it = Inl e \<Longrightarrow>
     dispatch_mode ops self ''random'' x = Inl e"
  by (simp add: dispatch_mode_def getattr_def)

lemma dispatch_knn_error:
  "knn self = Some k \<Longrightarrow> KNN_call ops k x = Inl e \<Longrightarrow> dispatch_mode ops self ''knn'' x = Inl e"
  by (simp add: dispatch_mode_def getattr_def)

lemma dispatch_hnsw_error:
  "hnsw self = Some h \<Longrightarrow> HNSW_call ops h x = Inl e \<Longrightarrow> dispatch_mode ops self ''hnsw'' x = Inl e"
  by (simp add: dispatch_mode_def getattr_def)

lemma handler_error_cases:
  assumes "(mode = ''random'' \<and> (\<exists>it. random_iter self = Some it \<and> feature_next ops it = Inl e))
         \<or> (mode = ''knn'' \<and> (\<exists>k. knn self = Some k \<and> KNN_call ops k x = Inl e))
         \<or> (mode = ''hnsw'' \<and> (\<exists>h. hnsw self = Some h \<and> HNSW_call ops h x = Inl e))"
  shows "dispatch_mode ops self mode x = Inl e"
  using assms
  by (elim disjE conjE exE) (simp_all add: dispatch_random_error dispatch_knn_error dispatch_hnsw_error)

lemma except_clause:
  "dispatch_mode ops self mode x = Inl e \<Longrightarrow>
     get_support_eval ops self mode x =
       (case e of AttributeError msg \<Rightarrow> Inl (AttributeError precompute_msg) | _ \<Rightarrow> Inl e)"
  by (cases e) (simp_all add: get_support_eval_def)

text \<open>
  Claim C7. A mode other than \<^verbatim>\<open>random\<close>, \<^verbatim>\<open>full\<close>, \<^verbatim>\<open>cluster\<close>, \<^verbatim>\<open>ensemble\<close>, \<^verbatim>\<open>knn\<close> and
  \<^verbatim>\<open>hnsw\<close> makes \<^verbatim>\<open>SupportSetEval.get_support\<close> raise \<^verbatim>\<open>NotImplementedError\<close>, the
  error of an unsupported mode, on every object and for every query.
\<close>

theorem get_support_eval_unsupported_mode:
  assumes "mode \<notin> {''random'', ''full'', ''cluster'', ''ensemble'', ''knn'', ''hnsw''}"
  shows "get_support_eval ops self mode x = Inl NotImplementedError"
  using assms by (rule unsupported_mode_raises)

theorem get_support_eval_unsupported_mode_witness:
  "''bogus'' \<notin> {''random'', ''full'', ''cluster'', ''ensemble'', ''knn'', ''hnsw''}
   \<and> get_support_eval demo_eval_ops (projr demo_eval_ready) ''bogus'' (Some 3) = Inl NotImplementedError
   \<and> get_support_eval demo_eval_ops (projr demo_eval_new) ''bogus'' None = Inl NotImplementedError"
proof -
  have m: "''bogus'' \<notin> {''random'', ''full'', ''cluster'', ''ensemble'', ''knn'', ''hnsw''}"
    by simp
  show ?thesis
    using m get_support_eval_unsupported_mode [OF m, of demo_eval_ops "projr demo_eval_ready" "Some 3"]
      get_support_eval_unsupported_mode [OF m, of demo_eval_ops "projr demo_eval_new" None]
    by simp
qed

lemma before_precompute_by_mode:
  assumes "SupportSetEval_init ops support_set n nsr nsf nsc nn ea_opt = Inr self"
  shows "get_support_eval ops self mode x =
           (if mode \<in> {''random'', ''full'', ''cluster'', ''ensemble'', ''knn'', ''hnsw''}
            then Inl (AttributeError precompute_msg) else Inl NotImplementedError)"
  using init_eval_fields [OF assms]
  by (simp add: get_support_eval_def dispatch_mode_def getattr_def)

text \<open>
  Claim C6. On an object returned by the constructor, before \<^verbatim>\<open>build_infer_iters\<close> has
  run, \<^verbatim>\<open>get_support\<close> fails for every mode it supports with the error that carries the
  message \<^verbatim>\<open>Did you run precompute()?\<close>: the error about the attribute that is missing
  inside the handler does not reach the caller.
\<close>

theorem get_support_before_precompute:
  assumes "SupportSetEval_init ops support_set n nsr nsf nsc nn ea_opt = Inr self"
      and "mode \<in> {''random'', ''full'', ''cluster'', ''ensemble'', ''knn'', ''hnsw''}"
  shows "get_support_eval ops self mode x = Inl (AttributeError ''Did you run precompute()?'')"
  using assms(2)
  by (simp only: before_precompute_by_mode [OF assms(1)] if_True precompute_msg_def)

theorem get_support_before_precompute_witness:
  "SupportSetEval_init demo_eval_ops (Single demo_ds) 3 1 1 2 2 (Some demo_env)
     = Inr (projr demo_eval_new)
   \<and> get_support_eval demo_eval_ops (projr demo_eval_new) ''random'' None
     = Inl (AttributeError ''Did you run precompute()?'')
   \<and> get_support_eval demo_eval_ops (projr demo_eval_new) ''full'' None
     = Inl (AttributeError ''Did you run precompute()?'')
   \<and> get_support_eval demo_eval_ops (projr demo_eval_new) ''cluster'' None
     = Inl (AttributeError ''Did you run precompute()?'')
   \<and> get_support_eval demo_eval_ops (projr demo_eval_new) ''ensemble'' None
     = Inl (AttributeError ''Did you run precompute()?'')
   \<and> get_support_eval demo_eval_ops (projr demo_eval_new) ''knn'' (Some 3)
     = Inl (AttributeError ''Did you run precompute()?'')
   \<and> get_support_eval demo_eval_ops (projr demo_eval_new) ''hnsw'' (Some 3)
     = Inl (AttributeError ''Did you run precompute()?'')"
proof -
  have h: "SupportSetEval_init demo_eval_ops (Single demo_ds) 3 1 1 2 2 (Some demo_env)
             = Inr (projr demo_eval_new)"
    using sum_is_Inr [OF demo_eval_new_ok] by (simp add: demo_eval_new_def)
  have m: "''random'' \<in> {''random'', ''full'', ''cluster'', ''ensemble'', ''knn'', ''hnsw''}"
      "''full'' \<in> {''random'', ''full'', ''cluster'', ''ensemble'', ''knn'', ''hnsw''}"
      "''cluster'' \<in> {''random'', ''full'', ''cluster'', ''ensemble'', ''knn'', ''hnsw''}"
      "''ensemble'' \<in> {''random'', ''full'', ''cluster'', ''ensemble'', ''knn'', ''hnsw''}"
      "''knn'' \<in> {''random'', ''full'', ''cluster'', ''ensemble'', ''knn'', ''hnsw''}"
      "''hnsw'' \<in> {''random'', ''full'', ''cluster'', ''ensemble'', ''knn'', ''hnsw''}"
    by simp_all
  show ?thesis
    using h get_support_before_precompute [OF h m(1), of None]
      get_support_before_precompute [OF h m(2), of None]
      get_support_before_precompute [OF h m(3), of None]
      get_support_before_precompute [OF h m(4), of None]
      get_support_before_precompute [OF h m(5), of "Some 3"]
      get_support_before_precompute [OF h m(6), of "Some 3"]
    by blast
qed

text \<open>
  Claim C9, as amended. When the handler of a mode (the sampler for \<^verbatim>\<open>random\<close>, the
  index for \<^verbatim>\<open>knn\<close> and \<^verbatim>\<open>hnsw\<close>) raises an error, \<^verbatim>\<open>get_support\<close> raises the same error
  unless it is an \<^verbatim>\<open>AttributeError\<close>, which the \<^verbatim>\<open>except\<close> clause replaces by the
  \<^verbatim>\<open>AttributeError\<close> with the message about the missing precompute.
\<close>

theorem handler_errors_propagate:
  assumes "(mode = ''random'' \<and> (\<exists>it. random_iter self = Some it \<and> feature_next ops it = Inl e))
         \<or> (mode = ''knn'' \<and> (\<exists>k. knn self = Some k \<and> KNN_call ops k x = Inl e))
         \<or> (mode = ''hnsw'' \<and> (\<exists>h. hnsw self = Some h \<and> HNSW_call ops h x = Inl e))"
  shows "get_support_eval ops self mode x =
           (case e of AttributeError msg \<Rightarrow> Inl (AttributeError precompute_msg) | _ \<Rightarrow> Inl e)"
  by (rule except_clause [OF handler_error_cases [OF assms]])

theorem handler_errors_propagate_witness:
  "(\<exists>h. hnsw (projr demo_eval_ready) = Some h \<and> HNSW_call demo_eval_ops h None = Inl ValueError)
   \<and> get_support_eval demo_eval_ops (projr demo_eval_ready) ''hnsw'' None = Inl ValueError"
proof -
  have h: "\<exists>h. hnsw (projr demo_eval_ready) = Some h
                \<and> HNSW_call demo_eval_ops h None = Inl ValueError"
    using demo_hnsw_absent_query by (cases "hnsw (projr demo_eval_ready)") simp_all
  then have
    "(''hnsw'' = ''random'' \<and> (\<exists>it. random_iter (projr demo_eval_ready) = Some it
          \<and> feature_next demo_eval_ops it = Inl ValueError))
     \<or> (''hnsw'' = ''knn'' \<and> (\<exists>k. knn (projr demo_eval_ready) = Some k
          \<and> KNN_call demo_eval_ops k None = Inl ValueError))
     \<or> (''hnsw'' = ''hnsw'' \<and> (\<exists>h. hnsw (projr demo_eval_ready) = Some h
          \<and> HNSW_call demo_eval_ops h None = Inl ValueError))"
    by blast
  from handler_errors_propagate [OF this] have
    "get_support_eval demo_eval_ops (projr demo_eval_ready) ''hnsw'' None = Inl ValueError"
    by simp
  with h show ?thesis by blast
qed

text \<open>
  The claim as stated fails: after precompute, the exact index called without a query raises
  an \<^verbatim>\<open>AttributeError\<close> of its own, and \<^verbatim>\<open>get_support\<close> raises another one in its place.
\<close>

theorem handler_errors_propagate_counterexample:
  "(case demo_eval_ready of
      Inl e \<Rightarrow> False
    | Inr s \<Rightarrow>
       (case knn s of
          None \<Rightarrow> False
        | Some k \<Rightarrow>
            KNN_call demo_eval_ops k None = Inl (AttributeError ''unsqueeze'') \<and>
            get_support_eval demo_eval_ops s ''knn'' None = Inl (AttributeError precompute_msg) \<and>
            AttributeError ''unsqueeze'' \<noteq> AttributeError precompute_msg))"
proof -
  let ?s = "projr demo_eval_ready"
  have r: "demo_eval_ready = Inr ?s"
    by (rule sum_is_Inr [OF demo_eval_ready_ok])
  obtain k where k: "knn ?s = Some k"
      "KNN_call demo_eval_ops k None = Inl (AttributeError ''unsqueeze'')"
    using demo_knn_absent_query by (cases "knn ?s") simp_all
  have "dispatch_mode demo_eval_ops ?s ''knn'' None = Inl (AttributeError ''unsqueeze'')"
    by (rule dispatch_knn_error [OF k])
  then have g: "get_support_eval demo_eval_ops ?s ''knn'' None = Inl (AttributeError precompute_msg)"
    by (simp add: get_support_eval_def)
  have c: "(case Inr ?s of
      Inl e \<Rightarrow> False
    | Inr s \<Rightarrow>
       (case knn s of
          None \<Rightarrow> False
        | Some k \<Rightarrow>
            KNN_call demo_eval_ops k None = Inl (AttributeError ''unsqueeze'') \<and>
            get_support_eval demo_eval_ops s ''knn'' None = Inl (AttributeError precompute_msg) \<and>
            AttributeError ''unsqueeze'' \<noteq> AttributeError precompute_msg))"
    using k g by (simp add: precompute_msg_def)
  show ?thesis by (subst r) (rule c)
qed

subsection \<open>The training provider\<close>

lemma demo_train_ok:
  "\<not> isl (demo_train ''match'') \<and> \<not> isl (demo_train ''random'') \<and> \<not> isl (demo_train ''unbalanced'')"
  by code_simp

lemma map_err_length: "map_err f xs = Inr ys \<Longrightarrow> length ys = length xs"
  by (induction xs arbitrary: ys) (auto split: sum.splits)

lemma separate_loop_length:
  "separate_loop cd i us envs self = Inr (envs1, self1) \<Longrightarrow>
     length envs1 = length envs + length us"
  by (induction cd i us envs self rule: separate_loop.induct)
     (auto simp: Let_def split: sum.splits)

lemma separate_loop_env_map:
  "separate_loop cd i us envs self = Inr (envs1, self1) \<Longrightarrow> env_map self1 e = Some j \<Longrightarrow>
     env_map self e = Some j \<or> (i \<le> j \<and> j < i + length us)"
proof (induction cd i us envs self rule: separate_loop.induct)
  case (1 cd i envs self)
  then show ?case by simp
next
  case (2 cd i attr rest envs self)
  then show ?case
    by (fastforce simp: Let_def split: sum.splits if_splits)
qed

lemma separate_env_map_bound:
  assumes "separate_env_datasets self cd = Inr (envs, self1)" "env_map self1 e = Some j"
  shows "j < length envs"
proof -
  let ?us = "np_unique (env_array self)"
  let ?s0 = "self\<lparr>env_map := Map.empty\<rparr>"
  have l: "separate_loop cd 0 ?us [] ?s0 = Inr (envs, self1)"
    using assms(1) by (simp add: separate_env_datasets_def)
  have "env_map ?s0 e = Some j \<or> (0 \<le> j \<and> j < 0 + length ?us)"
    by (rule separate_loop_env_map [OF l assms(2)])
  moreover have "length envs = length ?us"
    using separate_loop_length [OF l] by simp
  ultimately show ?thesis by simp
qed

lemma SupportSet_init_env_map:
  assumes "SupportSet_init inp n ea = Inr base" "env_map base e = Some j"
  shows "j < length (env_datasets base)"
  using assms
  by (auto simp: SupportSet_init_def Let_def combine_env_datasets_def
      split: sum.splits option.splits support_input.splits if_splits prod.splits
      dest: separate_env_map_bound)


lemma build_iter_shape:
  assumes "build_iter ops self = Inr ti"
  shows "if train_type self = ''random'' then (\<exists>l. ti = Loader l)
         else (\<exists>its. ti = IterList its \<and> length its = length (env_datasets self))"
  using assms
  by (auto simp: build_iter_def split: if_splits sum.splits dest: map_err_length)

lemma sample_support_fields:
  assumes "sample_support ops self y env_index pick = Inr (b, self1)"
  shows "\<exists>ti. self1 = self\<lparr>train_iter := ti\<rparr> \<and>
           (\<forall>its. train_iter self = IterList its \<longrightarrow>
              (\<exists>its'. ti = IterList its' \<and> length its' = length its))"
  using assms
  by (auto simp: sample_support_def next_of_list_def
      split: if_splits train_iters.splits list.splits option.splits sum.splits prod.splits)

lemma get_support_fields:
  assumes "get_support ops self y env_index pick u = Inr (b, self1)"
  shows "\<exists>ti. self1 = self\<lparr>train_iter := ti\<rparr> \<and>
           (\<forall>its. train_iter self = IterList its \<longrightarrow>
              (\<exists>its'. ti = IterList its' \<and> length its' = length its))"
proof -
  from assms obtain b0 where "sample_support ops self y env_index pick = Inr (b0, self1)"
    by (auto simp: get_support_def split: sum.splits prod.splits if_splits)
  then show ?thesis by (rule sample_support_fields)
qed

lemma constructed_train_invariant:
  assumes "constructed_train ops self"
  shows "num_per_class self = None
       \<and> (train_type self \<noteq> ''random'' \<longrightarrow>
            (\<exists>its. train_iter self = IterList its \<and> length its = length (env_datasets self)))
       \<and> (\<forall>e j. env_map self e = Some j \<longrightarrow> j < length (env_datasets self))"
  using assms
proof (induction rule: constructed_train.induct)
  case (by_init support_set n tt ns nw ea_opt self)
  then obtain base ti where
      b: "SupportSet_init support_set n ea_opt = Inr base"
    and ti: "build_iter ops \<lparr>y_array = y_array base, n_classes = n_classes base,
                       env_array = env_array base, combined_dataset = combined_dataset base,
                       env_datasets = env_datasets base, env_map = env_map base,
                       train_type = tt, n_shot = ns, n_way = nw,
                       train_iter = IterList [], num_per_class = None\<rparr> = Inr ti"
    and s: "self = \<lparr>y_array = y_array base, n_classes = n_classes base,
                       env_array = env_array base, combined_dataset = combined_dataset base,
                       env_datasets = env_datasets base, env_map = env_map base,
                       train_type = tt, n_shot = ns, n_way = nw,
                       train_iter = ti, num_per_class = None\<rparr>"
    by (auto simp: SupportSetTrain_init_def Let_def split: sum.splits)
  show ?case
    using build_iter_shape [OF ti] SupportSet_init_env_map [OF b]
    by (auto simp: s)
next
  case (by_get_support self y env_index pick u b self1)
  from get_support_fields [OF by_get_support.hyps(2)] obtain ti where
      s1: "self1 = self\<lparr>train_iter := ti\<rparr>"
    and ti: "\<forall>its. train_iter self = IterList its \<longrightarrow>
               (\<exists>its'. ti = IterList its' \<and> length its' = length its)"
    by blast
  from by_get_support.IH ti show ?case
    by (auto simp: s1)
qed

lemma verify_sy_absent_attribute:
  assumes "num_per_class self = None"
  shows "(fst (torch_unique sy) = arange (n_classes self) \<longrightarrow>
            verify_sy self sy = Inl (AttributeError ''num_per_class''))
       \<and> verify_sy self sy \<noteq> Inr ()"
  using assms
  by (simp add: verify_sy_def verify_counts_def split: prod.splits)

text \<open>
  Claim C10. On every training provider in use, the audit \<^verbatim>\<open>_verify_sy\<close> raises
  \<^verbatim>\<open>AttributeError\<close> for the attribute \<^verbatim>\<open>num_per_class\<close> whenever its first assertion
  passes (the distinct sampled labels are \<open>0, ..., n_classes - 1\<close>), because no statement of
  the class assigns that attribute; the audit never completes without an exception.
\<close>
theorem verify_sy_never_completes:
  assumes "constructed_train ops self"
  shows "(fst (torch_unique sy) = arange (n_classes self) \<longrightarrow>
            verify_sy self sy = Inl (AttributeError ''num_per_class''))
       \<and> verify_sy self sy \<noteq> Inr ()"
  using constructed_train_invariant [OF assms]
  by (intro verify_sy_absent_attribute) simp

lemma demo_labels_balanced: "fst (torch_unique [0, 1, 2]) = arange 3"
  by code_simp

lemma demo_train_constructed: "\<not> isl (demo_train tt) \<Longrightarrow> constructed_train demo_sampler (projr (demo_train tt))"
  using sum_is_Inr [of "demo_train tt"] 
  by (intro constructed_train.by_init [of demo_sampler "Single demo_ds" 3 tt 1 None "Some demo_env"])
     (simp add: demo_train_def)

lemma demo_train_n_classes: "n_classes (projr (demo_train ''random'')) = 3"
  by code_simp

theorem verify_sy_never_completes_witness:
  "constructed_train demo_sampler (projr (demo_train ''random''))
   \<and> fst (torch_unique [0, 1, 2]) = arange (n_classes (projr (demo_train ''random'')))
   \<and> verify_sy (projr (demo_train ''random'')) [0, 1, 2] = Inl (AttributeError ''num_per_class'')"
proof -
  have c: "constructed_train demo_sampler (projr (demo_train ''random''))"
    using demo_train_ok by (intro demo_train_constructed) simp
  have b: "fst (torch_unique [0, 1, 2]) = arange (n_classes (projr (demo_train ''random'')))"
    by (simp only: demo_train_n_classes demo_labels_balanced)
  from verify_sy_never_completes [OF c, of "[0, 1, 2]"] b c show ?thesis by blast
qed

text \<open>
  Claim C1, evaluated on the provider built with \<^verbatim>\<open>train_type = 'unbalanced'\<close>. The audit is
  not skipped: \<^verbatim>\<open>_verify_sy\<close> runs its assertions, raising \<^verbatim>\<open>AttributeError\<close> on balanced
  labels and \<^verbatim>\<open>AssertionError\<close> on unbalanced ones. The call of \<^verbatim>\<open>get_support\<close> itself
  with a triggered audit returns no batch: it raises \<^verbatim>\<open>AttributeError\<close> when it calls
  \<^verbatim>\<open>next\<close> on the list of iterators that \<^verbatim>\<open>_build_iter\<close> stored.
\<close>
theorem unbalanced_audit_not_skipped:
  "(case demo_train ''unbalanced'' of
      Inl e \<Rightarrow> False
    | Inr s \<Rightarrow>
        train_type s = ''unbalanced''
        \<and> verify_sy s [0, 1, 2] = Inl (AttributeError ''num_per_class'')
        \<and> verify_sy s [0, 0, 1] = Inl AssertionError
        \<and> (case get_support demo_sampler s [0] [0] 0 0 of
             Inl e \<Rightarrow> e = AttributeError ''next''
           | Inr r \<Rightarrow> False))"
  by code_simp

text \<open>
  Claim C2 as stated fails: under \<^verbatim>\<open>random\<close> the call is \<^verbatim>\<open>self.train_iter.next(y)\<close>, so
  the sampler operation depends on the label batch. With a sampler that uses its target
  labels as the spec's sampler contract describes, and the same sampler state, two label
  batches give two results.
\<close>
theorem random_policy_arguments_counterexample:
  "(case demo_train ''random'' of
      Inl e \<Rightarrow> False
    | Inr s \<Rightarrow>
        (case get_support demo_sampler s [0] [0] 0 (1 / 2) of
           Inl e \<Rightarrow> False
         | Inr ((sx, sy, sm), s1) \<Rightarrow> sy = [0])
        \<and> (case get_support demo_sampler s [1] [0] 0 (1 / 2) of
           Inl e \<Rightarrow> False
         | Inr ((sx, sy, sm), s1) \<Rightarrow> sy = [1]))"
  by code_simp

lemma loader_result_inj:
  assumes "(case r1 of Inl e \<Rightarrow> Inl e
            | Inr (b, l') \<Rightarrow> Inr (b, self\<lparr>train_iter := Loader l'\<rparr>))
         = (case r2 of Inl e \<Rightarrow> Inl e
            | Inr (b, l') \<Rightarrow> Inr (b, self\<lparr>train_iter := Loader l'\<rparr>))"
  shows "r1 = (r2 :: error + ('b \<times> 'it))"
proof (cases r1)
  case (Inl e1)
  with assms show ?thesis by (cases r2) (auto split: prod.splits)
next
  case (Inr p1)
  obtain b1 l1 where p1: "p1 = (b1, l1)" by (cases p1)
  show ?thesis
  proof (cases r2)
    case (Inl e2)
    with assms Inr p1 show ?thesis by simp
  next
    case r2: (Inr p2)
    obtain b2 l2 where p2: "p2 = (b2, l2)" by (cases p2)
    from assms Inr p1 r2 p2 have b: "b1 = b2"
      and u: "self\<lparr>train_iter := Loader l1\<rparr> = self\<lparr>train_iter := Loader l2\<rparr>"
      by simp_all
    from u have "train_iter (self\<lparr>train_iter := Loader l1\<rparr>)
                   = train_iter (self\<lparr>train_iter := Loader l2\<rparr>)"
      by (rule arg_cong)
    then have "l1 = l2" by simp
    with b Inr p1 r2 p2 show ?thesis by simp
  qed
qed

lemma random_without_audit:
  assumes "train_type self = ''random''" "train_iter self = Loader l" "\<not> u < 1 / 100"
  shows "get_support ops self y env_index pick u =
           (case next_batch ops l (Some y) of
              Inl e \<Rightarrow> Inl e
            | Inr (b, l') \<Rightarrow> Inr (b, self\<lparr>train_iter := Loader l'\<rparr>))"
  using assms
  by (simp add: get_support_def sample_support_def split: sum.splits prod.splits)

text \<open>
  Claim C2, as amended. Under \<^verbatim>\<open>random\<close>, \<^verbatim>\<open>get_support\<close> ignores its environment ids:
  with the same object, label batch and audit draw the result is the same for any two
  batches of environment ids. The label batch is passed on to the sampler: two label
  batches give the same result whenever the sampler's \<^verbatim>\<open>next\<close> returns the same for both,
  and, when the audit does not run, they give the same result exactly when it does.
\<close>

theorem random_policy_arguments:
  assumes "train_type self = ''random''"
  shows "get_support ops self y env1 pick1 u = get_support ops self y env2 pick2 u
       \<and> ((\<forall>l. train_iter self = Loader l \<longrightarrow>
               next_batch ops l (Some y1) = next_batch ops l (Some y2))
            \<longrightarrow> get_support ops self y1 env1 pick1 u = get_support ops self y2 env2 pick2 u)
       \<and> (train_iter self = Loader l0 \<and> \<not> u < 1 / 100 \<longrightarrow>
             (get_support ops self y1 env1 pick1 u = get_support ops self y2 env2 pick2 u)
               = (next_batch ops l0 (Some y1) = next_batch ops l0 (Some y2)))"
proof -
  have "sample_support ops self y env1 pick1 = sample_support ops self y env2 pick2"
    using assms by (simp add: sample_support_def)
  then have a: "get_support ops self y env1 pick1 u = get_support ops self y env2 pick2 u"
    by (simp add: get_support_def)
  have "sample_support ops self y1 env1 pick1 = sample_support ops self y2 env2 pick2"
    if "\<forall>l. train_iter self = Loader l \<longrightarrow> next_batch ops l (Some y1) = next_batch ops l (Some y2)"
    using assms that by (cases "train_iter self") (simp_all add: sample_support_def)
  then have b: "get_support ops self y1 env1 pick1 u = get_support ops self y2 env2 pick2 u"
    if "\<forall>l. train_iter self = Loader l \<longrightarrow> next_batch ops l (Some y1) = next_batch ops l (Some y2)"
    using that by (simp add: get_support_def)
  have c: "(get_support ops self y1 env1 pick1 u = get_support ops self y2 env2 pick2 u)
             = (next_batch ops l0 (Some y1) = next_batch ops l0 (Some y2))"
    if l: "train_iter self = Loader l0" and u: "\<not> u < 1 / 100"
  proof
    assume "get_support ops self y1 env1 pick1 u = get_support ops self y2 env2 pick2 u"
    then show "next_batch ops l0 (Some y1) = next_batch ops l0 (Some y2)"
      unfolding random_without_audit [OF assms l u] by (rule loader_result_inj)
  next
    assume "next_batch ops l0 (Some y1) = next_batch ops l0 (Some y2)"
    then show "get_support ops self y1 env1 pick1 u = get_support ops self y2 env2 pick2 u"
      unfolding random_without_audit [OF assms l u] by simp
  qed
  from a b c show ?thesis by blast
qed

lemma demo_random_type: "train_type (projr (demo_train ''random'')) = ''random''"
  by code_simp

lemma demo_random_loader:
  "train_iter (projr (demo_train ''random'')) = Loader ([0, 1, 2, 0, 1, 2], 0)"
  by code_simp

lemma demo_uniform_next:
  "next_batch demo_uniform_sampler l (Some [0]) = next_batch demo_uniform_sampler l (Some [1])"
  by (simp add: demo_uniform_sampler_def)

lemma demo_echo_next:
  "next_batch demo_sampler ([0, 1, 2, 0, 1, 2], 0) (Some [0])
     \<noteq> next_batch demo_sampler ([0, 1, 2, 0, 1, 2], 0) (Some [1])"
  by (simp add: demo_sampler_def)

theorem random_policy_arguments_witness:
  "train_type (projr (demo_train ''random'')) = ''random''
   \<and> get_support demo_sampler (projr (demo_train ''random'')) [0] [0] 0 (1 / 2)
     = get_support demo_sampler (projr (demo_train ''random'')) [0] [2, 2] 1 (1 / 2)
   \<and> next_batch demo_uniform_sampler ([0, 1, 2, 0, 1, 2], 0) (Some [0])
     = next_batch demo_uniform_sampler ([0, 1, 2, 0, 1, 2], 0) (Some [1])
   \<and> get_support demo_uniform_sampler (projr (demo_train ''random'')) [0] [0] 0 0
     = get_support demo_uniform_sampler (projr (demo_train ''random'')) [1] [2, 2] 1 0
   \<and> train_iter (projr (demo_train ''random'')) = Loader ([0, 1, 2, 0, 1, 2], 0)
   \<and> \<not> (1 / 2 :: real) < 1 / 100
   \<and> get_support demo_sampler (projr (demo_train ''random'')) [0] [0] 0 (1 / 2)
     \<noteq> get_support demo_sampler (projr (demo_train ''random'')) [1] [0] 0 (1 / 2)"
proof -
  let ?s = "projr (demo_train ''random'')"
  have u: "\<not> (1 / 2 :: real) < 1 / 100" by simp
  have e: "get_support demo_sampler ?s [0] [0] 0 (1 / 2)
             = get_support demo_sampler ?s [0] [2, 2] 1 (1 / 2)"
    using random_policy_arguments [OF demo_random_type, of demo_sampler "[0]" "[0]" 0 "1 / 2" "[2, 2]" 1]
    by blast
  have y: "get_support demo_uniform_sampler ?s [0] [0] 0 0
             = get_support demo_uniform_sampler ?s [1] [2, 2] 1 0"
    using random_policy_arguments [OF demo_random_type, where ops = demo_uniform_sampler
        and ?y1.0 = "[0]" and ?y2.0 = "[1]" and ?env1.0 = "[0]" and ?env2.0 = "[2, 2]"
        and ?pick1.0 = 0 and ?pick2.0 = 1 and u = 0]
      demo_uniform_next
    by blast
  have d: "get_support demo_sampler ?s [0] [0] 0 (1 / 2)
             \<noteq> get_support demo_sampler ?s [1] [0] 0 (1 / 2)"
    using random_policy_arguments [OF demo_random_type, where ops = demo_sampler
        and ?y1.0 = "[0]" and ?y2.0 = "[1]" and ?env1.0 = "[0]" and ?env2.0 = "[0]"
        and ?pick1.0 = 0 and ?pick2.0 = 0 and u = "1 / 2" and ?l0.0 = "([0, 1, 2, 0, 1, 2], 0)"]
      demo_random_loader demo_echo_next u
    by blast
  from demo_random_type e demo_uniform_next y demo_random_loader u d show ?thesis by blast
qed

lemma all_equal_conv: "(xs = map (\<lambda>_. e0) xs) = (\<forall>a \<in> set xs. a = e0)"
  by (induction xs) auto

lemma match_mixed_ids:
  assumes "train_type self = ''match''" "\<exists>a \<in> set env_index. a \<noteq> hd env_index"
  shows "get_support ops self y env_index pick u = Inl AssertionError"
proof (cases env_index)
  case Nil
  with assms(2) show ?thesis by simp
next
  case (Cons e0 rest)
  with assms(2) have "\<not> (\<forall>a \<in> set rest. a = e0)" by simp
  then have "sample_support ops self y env_index pick = Inl AssertionError"
    using assms(1) Cons by (simp add: sample_support_def all_equal_conv)
  then show ?thesis by (simp add: get_support_def)
qed

lemma match_same_ids:
  assumes "train_type self = ''match''" "env_index \<noteq> []" "\<forall>a \<in> set env_index. a = hd env_index"
    "env_map self (hd env_index) = Some i" "train_iter self = IterList its" "i < length its"
  shows "sample_support ops self y env_index pick = next_of_list ops self its i"
proof (cases env_index)
  case Nil
  with assms(2) show ?thesis by simp
next
  case (Cons e0 rest)
  with assms(3) have "\<forall>a \<in> set rest. a = e0" by simp
  then show ?thesis
    using assms(1,4,5,6) Cons by (simp add: sample_support_def all_equal_conv)
qed

text \<open>
  Claim C5. Under \<^verbatim>\<open>match\<close>, on a training provider in use: when two entries of the batch
  of environment ids differ, \<^verbatim>\<open>get_support\<close> raises \<^verbatim>\<open>AssertionError\<close>; when the batch is
  not empty, all its entries are equal and the environment map sends that id to \<open>i\<close>, the
  list of samplers has a position \<open>i\<close> and the result is the batch that this sampler's
  \<^verbatim>\<open>next()\<close> returns (subject to the audit), with only that sampler advanced.
\<close>

theorem match_policy:
  assumes "constructed_train ops self" and "train_type self = ''match''"
  shows "((\<exists>a \<in> set env_index. a \<noteq> hd env_index) \<longrightarrow>
            get_support ops self y env_index pick u = Inl AssertionError)
       \<and> (env_index \<noteq> [] \<and> (\<forall>a \<in> set env_index. a = hd env_index)
            \<and> env_map self (hd env_index) = Some i \<longrightarrow>
          (\<exists>its. train_iter self = IterList its \<and> i < length its \<and>
             get_support ops self y env_index pick u =
               (case next_batch ops (its ! i) None of
                  Inl err \<Rightarrow> Inl err
                | Inr ((sx, sy, sm), it') \<Rightarrow>
                    if u < 1 / 100 then
                      (case verify_sy (self\<lparr>train_iter := IterList (its[i := it'])\<rparr>) sy of
                         Inl err \<Rightarrow> Inl err
                       | Inr _ \<Rightarrow> Inr ((sx, sy, sm), self\<lparr>train_iter := IterList (its[i := it'])\<rparr>))
                    else Inr ((sx, sy, sm), self\<lparr>train_iter := IterList (its[i := it'])\<rparr>))))"
proof (intro conjI impI)
  assume "\<exists>a \<in> set env_index. a \<noteq> hd env_index"
  then show "get_support ops self y env_index pick u = Inl AssertionError"
    by (rule match_mixed_ids [OF assms(2)])
next
  assume h: "env_index \<noteq> [] \<and> (\<forall>a \<in> set env_index. a = hd env_index)
            \<and> env_map self (hd env_index) = Some i"
  from constructed_train_invariant [OF assms(1)] assms(2) obtain its where
    its: "train_iter self = IterList its" "length its = length (env_datasets self)"
    and b: "\<forall>e j. env_map self e = Some j \<longrightarrow> j < length (env_datasets self)"
    by auto
  from b h its(2) have i: "i < length its" by auto
  have "sample_support ops self y env_index pick = next_of_list ops self its i"
    using h by (intro match_same_ids [OF assms(2) _ _ _ its(1) i]) simp_all
  then have "get_support ops self y env_index pick u =
               (case next_batch ops (its ! i) None of
                  Inl err \<Rightarrow> Inl err
                | Inr ((sx, sy, sm), it') \<Rightarrow>
                    if u < 1 / 100 then
                      (case verify_sy (self\<lparr>train_iter := IterList (its[i := it'])\<rparr>) sy of
                         Inl err \<Rightarrow> Inl err
                       | Inr _ \<Rightarrow> Inr ((sx, sy, sm), self\<lparr>train_iter := IterList (its[i := it'])\<rparr>))
                    else Inr ((sx, sy, sm), self\<lparr>train_iter := IterList (its[i := it'])\<rparr>))"
    by (simp add: get_support_def next_of_list_def split: sum.splits prod.splits)
  with its(1) i show "\<exists>its. train_iter self = IterList its \<and> i < length its \<and>
             get_support ops self y env_index pick u =
               (case next_batch ops (its ! i) None of
                  Inl err \<Rightarrow> Inl err
                | Inr ((sx, sy, sm), it') \<Rightarrow>
                    if u < 1 / 100 then
                      (case verify_sy (self\<lparr>train_iter := IterList (its[i := it'])\<rparr>) sy of
                         Inl err \<Rightarrow> Inl err
                       | Inr _ \<Rightarrow> Inr ((sx, sy, sm), self\<lparr>train_iter := IterList (its[i := it'])\<rparr>))
                    else Inr ((sx, sy, sm), self\<lparr>train_iter := IterList (its[i := it'])\<rparr>))"
    by blast
qed


lemma demo_match_facts:
  "train_type (projr (demo_train ''match'')) = ''match''
   \<and> env_map (projr (demo_train ''match'')) 2 = Some 1
   \<and> env_map (projr (demo_train ''match'')) 0 = Some 0
   \<and> map view_targets (env_datasets (projr (demo_train ''match''))) = [[0, 2, 2], [1, 0, 1]]"
  by code_simp

lemma demo_match_draw:
  "(case get_support demo_sampler (projr (demo_train ''match'')) [0] [2, 2, 2] 0 (1 / 2) of
      Inl e \<Rightarrow> False
    | Inr ((sx, sy, sm), s1) \<Rightarrow> sy = [1, 0, 1])"
  by code_simp

theorem match_policy_witness:
  "constructed_train demo_sampler (projr (demo_train ''match''))
   \<and> train_type (projr (demo_train ''match'')) = ''match''
   \<and> (\<exists>a \<in> set [1, 2]. a \<noteq> hd [1, 2 :: int])
   \<and> get_support demo_sampler (projr (demo_train ''match'')) [0] [1, 2] 0 (1 / 2) = Inl AssertionError
   \<and> [2, 2, 2] \<noteq> [] \<and> set [2, 2, 2] = {hd [2, 2, 2 :: int]}
   \<and> env_map (projr (demo_train ''match'')) (hd [2, 2, 2]) = Some 1
   \<and> (\<exists>its. train_iter (projr (demo_train ''match'')) = IterList its \<and> 1 < length its)
   \<and> (case get_support demo_sampler (projr (demo_train ''match'')) [0] [2, 2, 2] 0 (1 / 2) of
        Inl e \<Rightarrow> False
      | Inr ((sx, sy, sm), s1) \<Rightarrow> sy = [1, 0, 1])"
proof -
  let ?s = "projr (demo_train ''match'')"
  have c: "constructed_train demo_sampler ?s"
    using demo_train_ok by (intro demo_train_constructed) simp
  have t: "train_type ?s = ''match''"
    using demo_match_facts by simp
  have m: "\<exists>a \<in> set [1, 2]. a \<noteq> hd [1, 2 :: int]" by simp
  have h: "[2, 2, 2] \<noteq> [] \<and> (\<forall>a \<in> set [2, 2, 2]. a = hd [2, 2, 2 :: int])
            \<and> env_map ?s (hd [2, 2, 2]) = Some 1"
    using demo_match_facts by simp
  from match_policy [OF c t, where env_index = "[1, 2]" and y = "[0]" and pick = 0 and u = "1 / 2"] m
  have a: "get_support demo_sampler ?s [0] [1, 2] 0 (1 / 2) = Inl AssertionError"
    by blast
  from match_policy [OF c t, where env_index = "[2, 2, 2]" and i = 1] h
  have e: "\<exists>its. train_iter ?s = IterList its \<and> 1 < length its"
    by blast
  have g: "set [2, 2, 2] = {hd [2, 2, 2 :: int]}" by simp
  from c t m a h e g demo_match_draw show ?thesis by blast
qed

subsection \<open>Cluster prototypes\<close>

lemma map_err_list_all:
  "map_err f xs = Inr ys \<Longrightarrow> (\<And>x y. f x = Inr y \<Longrightarrow> P y) \<Longrightarrow> list_all P ys"
  by (induction xs arbitrary: ys) (auto split: sum.splits)

lemma length_concat_uniform:
  "list_all (\<lambda>p. length p = k) ps \<Longrightarrow> length (concat ps) = length ps * k"
  by (induction ps) auto

lemma cluster_loop_centroids:
  "cluster_loop ops False embeddings labels k cs sfeat slabel = Inr (sf, sl) \<Longrightarrow>
     \<exists>protos. map_err (\<lambda>c. KMeans_fit ops k (mask_select embeddings labels c)) cs = Inr protos
        \<and> sf = sfeat @ protos \<and> sl = slabel @ concat (map (replicate k) cs)"
proof (induction cs arbitrary: sfeat slabel)
  case Nil
  then show ?case by simp
next
  case (Cons c cs)
  from Cons.prems obtain centroids where
      km: "KMeans_fit ops k (mask_select embeddings labels c) = Inr centroids"
    and rest: "cluster_loop ops False embeddings labels k cs (sfeat @ [centroids])
                 (slabel @ replicate k c) = Inr (sf, sl)"
    by (auto simp: Let_def split: if_splits sum.splits)
  from Cons.IH [OF rest] obtain protos where
      "map_err (\<lambda>c. KMeans_fit ops k (mask_select embeddings labels c)) cs = Inr protos"
      "sf = (sfeat @ [centroids]) @ protos"
      "sl = (slabel @ replicate k c) @ concat (map (replicate k) cs)"
    by blast
  with km show ?case by simp
qed

lemma np_unique_all_classes:
  assumes "set sy = int ` {0..<n}"
  shows "np_unique sy = arange n"
proof -
  have "sorted (arange n)" "distinct (arange n)" "set (arange n) = set sy"
    using assms by (auto simp: arange_def sorted_map distinct_map inj_on_def intro: sorted_wrt_mono_rel [of _ "(<)"])
  moreover have "sorted (np_unique sy)" "distinct (np_unique sy)" "set (np_unique sy) = set sy"
    by (simp_all add: np_unique_def)
  ultimately show ?thesis
    by (metis sorted_distinct_set_unique)
qed

lemma build_infer_iters_clusters:
  assumes "build_infer_iters ops self sfeat sy smeta sfeat_env sy_env smeta_env = Inr self1"
  shows "\<exists>cf cy. compute_clusters ops
            (self\<lparr>full_feat := Some sfeat, full_y := Some sy, full_meta := Some smeta,
                        full_feat_sep := Some sfeat_env, full_y_sep := Some sy_env,
                        full_meta_sep := Some smeta_env\<rparr>) False = Inr (cf, cy)
          \<and> cluster_feat self1 = Some cf \<and> cluster_y self1 = Some cy"
  using assms
  by (auto simp: build_infer_iters_def Let_def split: sum.splits prod.splits)


lemma compute_clusters_centroids:
  assumes "compute_clusters ops self False = Inr (cf, cy)"
      and "full_feat self = Some sfeat" "full_y self = Some sy"
  shows "\<exists>protos. map_err (\<lambda>c. KMeans_fit ops (n_shot_cluster self) (mask_select sfeat sy c))
                      (np_unique sy) = Inr protos
          \<and> cf = concat protos
          \<and> cy = concat (map (replicate (n_shot_cluster self)) (np_unique sy))"
proof -
  from assms obtain sf sl where
    l: "cluster_loop ops False sfeat sy (n_shot_cluster self) (np_unique sy) [] [] = Inr (sf, sl)"
    and r: "cf = concat sf" "cy = sl"
    by (auto simp: compute_clusters_def split: sum.splits prod.splits if_splits)
  from cluster_loop_centroids [OF l] r show ?thesis by simp
qed

text \<open>
  Claim C4. Provided that the clustering collaborator returns as many centres as it is asked
  for, after \<^verbatim>\<open>build_infer_iters\<close> has returned the cluster prototypes are the
  concatenation, over the distinct labels of the full label set in ascending order, of the
  \<^verbatim>\<open>n_shot_cluster\<close> centres fitted to the features of that label, and the cluster labels
  repeat each label \<^verbatim>\<open>n_shot_cluster\<close> times in the same order. When the labels present are
  exactly \<open>0, ..., n_classes - 1\<close>, there are \<open>n_classes * n_shot_cluster\<close> prototypes.
\<close>

theorem cluster_prototypes:
  assumes "\<forall>k vs cs. KMeans_fit ops k vs = Inr cs \<longrightarrow> length cs = k"
      and "build_infer_iters ops self sfeat sy smeta sfeat_env sy_env smeta_env = Inr self1"
  shows "\<exists>protos.
           map_err (\<lambda>c. KMeans_fit ops (n_shot_cluster self) (mask_select sfeat sy c))
             (np_unique sy) = Inr protos
         \<and> list_all (\<lambda>p. length p = n_shot_cluster self) protos
         \<and> cluster_feat self1 = Some (concat protos)
         \<and> cluster_y self1 = Some (concat (map (replicate (n_shot_cluster self)) (np_unique sy)))
         \<and> length (concat protos) = length (np_unique sy) * n_shot_cluster self
         \<and> (set sy = int ` {0..<n_classes self} \<longrightarrow>
              length (concat protos) = n_classes self * n_shot_cluster self
              \<and> cluster_y self1 =
                  Some (concat (map (replicate (n_shot_cluster self)) (arange (n_classes self)))))"
proof -
  let ?s0 = "self\<lparr>full_feat := Some sfeat, full_y := Some sy, full_meta := Some smeta,
                        full_feat_sep := Some sfeat_env, full_y_sep := Some sy_env,
                        full_meta_sep := Some smeta_env\<rparr>"
  let ?k = "n_shot_cluster self"
  from build_infer_iters_clusters [OF assms(2)] obtain cf cy where
    cc: "compute_clusters ops ?s0 False = Inr (cf, cy)"
    and f: "cluster_feat self1 = Some cf" "cluster_y self1 = Some cy"
    by blast
  from compute_clusters_centroids [OF cc, of sfeat sy] obtain protos where
    p: "map_err (\<lambda>c. KMeans_fit ops ?k (mask_select sfeat sy c)) (np_unique sy) = Inr protos"
    and e: "cf = concat protos" "cy = concat (map (replicate ?k) (np_unique sy))"
    by auto
  have a: "list_all (\<lambda>p. length p = ?k) protos"
    using assms(1) by (intro map_err_list_all [OF p]) blast
  have n: "length protos = length (np_unique sy)"
    by (rule map_err_length [OF p])
  have len: "length (concat protos) = length (np_unique sy) * ?k"
    using length_concat_uniform [OF a] n by simp
  have "length (concat protos) = n_classes self * ?k
        \<and> cluster_y self1 = Some (concat (map (replicate ?k) (arange (n_classes self))))"
    if "set sy = int ` {0..<n_classes self}"
    using np_unique_all_classes [OF that] len f e by (simp add: arange_def)
  with p a f e len show ?thesis by blast
qed

lemma demo_kmeans_contract:
  "\<forall>k vs cs. KMeans_fit demo_eval_ops k vs = Inr cs \<longrightarrow> length cs = k"
  by (auto simp: demo_eval_ops_def split: if_splits)

lemma demo_eval_ready_built:
  "build_infer_iters demo_eval_ops (projr demo_eval_new) [5, 6, 7, 8, 9, 10] [0, 1, 2, 0, 1, 2] ()
      [[5, 7, 10], [6, 8, 9]] [[0, 2, 2], [1, 0, 1]] [(), ()] = Inr (projr demo_eval_ready)"
proof -
  have "demo_eval_ready =
     (case Inr (projr demo_eval_new) of
        Inl e \<Rightarrow> Inl e
      | Inr s \<Rightarrow>
          build_infer_iters demo_eval_ops s [5, 6, 7, 8, 9, 10] [0, 1, 2, 0, 1, 2] ()
            [[5, 7, 10], [6, 8, 9]] [[0, 2, 2], [1, 0, 1]] [(), ()])"
    by (subst sum_is_Inr [OF demo_eval_new_ok, symmetric]) (rule demo_eval_ready_def)
  then show ?thesis using sum_is_Inr [OF demo_eval_ready_ok] by simp
qed

lemma demo_eval_params:
  "n_classes (projr demo_eval_new) = 3 \<and> n_shot_cluster (projr demo_eval_new) = 2
   \<and> set [0, 1, 2, 0, 1, 2] = int ` {0..<3}
   \<and> concat (map (replicate 2) (arange 3)) = [0, 0, 1, 1, 2, 2]"
  by code_simp

theorem cluster_prototypes_witness:
  "build_infer_iters demo_eval_ops (projr demo_eval_new) [5, 6, 7, 8, 9, 10] [0, 1, 2, 0, 1, 2] ()
      [[5, 7, 10], [6, 8, 9]] [[0, 2, 2], [1, 0, 1]] [(), ()] = Inr (projr demo_eval_ready)
   \<and> n_classes (projr demo_eval_new) = 3 \<and> n_shot_cluster (projr demo_eval_new) = 2
   \<and> set [0, 1, 2, 0, 1, 2] = int ` {0..<3}
   \<and> cluster_y (projr demo_eval_ready) = Some [0, 0, 1, 1, 2, 2]
   \<and> (\<exists>cf. cluster_feat (projr demo_eval_ready) = Some cf \<and> length cf = 6)"
proof -
  from cluster_prototypes [OF demo_kmeans_contract demo_eval_ready_built] demo_eval_params
  have "cluster_y (projr demo_eval_ready) = Some [0, 0, 1, 1, 2, 2]
        \<and> (\<exists>cf. cluster_feat (projr demo_eval_ready) = Some cf \<and> length cf = 6)"
    by auto
  with demo_eval_ready_built demo_eval_params show ?thesis by simp
qed

subsection \<open>Environment partition and recombination\<close>

lemma nonzero_eq_bound: "list_all (\<lambda>j. j < length ea) (nonzero_eq ea a)"
  by (simp add: nonzero_eq_def list_all_iff)

lemma take_indices_nonzero:
  assumes "length ea \<le> length ya"
  shows "take_indices ya (nonzero_eq ea a) = Inr (map (\<lambda>j. ya ! j) (nonzero_eq ea a))"
proof -
  have "list_all (\<lambda>j. j < length ya) (nonzero_eq ea a)"
    using assms by (auto simp: nonzero_eq_def list_all_iff)
  then show ?thesis by (simp add: take_indices_def)
qed

lemma separate_loop_result:
  assumes "length (env_array self) \<le> length (y_array self)"
  shows "\<exists>self1. separate_loop cd i us envs self =
            Inr (envs @ map (env_subset cd (env_array self) (y_array self)) us, self1)
          \<and> y_array self1 = y_array self \<and> env_array self1 = env_array self
          \<and> n_classes self1 = n_classes self \<and> combined_dataset self1 = combined_dataset self
          \<and> env_datasets self1 = env_datasets self"
  using assms
proof (induction cd i us envs self rule: separate_loop.induct)
  case (1 cd i envs self)
  then show ?case by simp
next
  case (2 cd i attr rest envs self)
  let ?s1 = "self\<lparr>env_map := (env_map self)(attr \<mapsto> i)\<rparr>"
  let ?idx = "nonzero_eq (env_array self) attr"
  let ?tg = "map (\<lambda>j. y_array self ! j) ?idx"
  have t: "take_indices (y_array ?s1) (nonzero_eq (env_array ?s1) attr) = Inr ?tg"
    using take_indices_nonzero [OF "2.prems"] by simp
  have "\<exists>self1. separate_loop cd (Suc i) rest (envs @ [Subset cd ?idx ?tg]) ?s1 =
            Inr ((envs @ [Subset cd ?idx ?tg]) @ map (env_subset cd (env_array ?s1) (y_array ?s1)) rest, self1)
          \<and> y_array self1 = y_array ?s1 \<and> env_array self1 = env_array ?s1
          \<and> n_classes self1 = n_classes ?s1 \<and> combined_dataset self1 = combined_dataset ?s1
          \<and> env_datasets self1 = env_datasets ?s1"
    using "2.prems" t by (intro "2.IH" [of ?s1 ?idx ?tg]) simp_all
  then show ?case
    using t by (auto simp: Let_def env_subset_def)
qed

lemma init_with_env_array:
  assumes "length ea \<le> length (targets ds)"
  shows "\<exists>self. SupportSet_init (Single ds) n (Some ea) = Inr self
           \<and> y_array self = targets ds \<and> env_array self = ea \<and> n_classes self = n
           \<and> combined_dataset self = DatasetMetadata ds ea
           \<and> env_datasets self = map (env_subset (DatasetMetadata ds ea) ea (targets ds)) (np_unique ea)"
proof -
  let ?cd = "DatasetMetadata ds ea"
  let ?s0 = "\<lparr>y_array = targets ds, n_classes = n, env_array = ea,
               combined_dataset = ?cd, env_datasets = [], env_map = Map.empty\<rparr>"
  have "length (env_array (?s0\<lparr>env_map := Map.empty\<rparr>)) \<le> length (y_array (?s0\<lparr>env_map := Map.empty\<rparr>))"
    using assms by simp
  from separate_loop_result [OF this, of ?cd 0 "np_unique ea" "[]"]
  show ?thesis
    by (auto simp: SupportSet_init_def separate_env_datasets_def Let_def)
qed


lemma length_nonzero_eq: "length (nonzero_eq ea a) = count_list ea a"
proof -
  have "filter (\<lambda>x. x = a) (map (\<lambda>i. ea ! i) [0..<length ea])
          = map (\<lambda>i. ea ! i) (filter (\<lambda>i. ea ! i = a) [0..<length ea])"
    by (simp add: filter_map comp_def)
  then have "length (filter (\<lambda>x. x = a) ea) = length (nonzero_eq ea a)"
    by (simp add: nonzero_eq_def map_nth)
  moreover have "(\<lambda>x. x = a) = ((=) a)" by auto
  ultimately show ?thesis by (simp add: count_list_eq_length_filter)
qed

lemma sum_counts_unique: "sum_list (map (count_list ea) (np_unique ea)) = length ea"
proof -
  have "sum_list (map (count_list ea) (np_unique ea)) = sum (count_list ea) (set (np_unique ea))"
    by (rule sum_list_distinct_conv_sum_set) (simp add: np_unique_def)
  also have "\<dots> = sum (count_list ea) (set ea)"
    by (simp add: np_unique_def)
  also have "\<dots> = length ea"
    by (rule sum_count_set) simp_all
  finally show ?thesis .
qed

lemma len_env_subsets:
  "sum_list (map (len_view \<circ> env_subset cd ea ya) (np_unique ea)) = length ea"
proof -
  have "map (len_view \<circ> env_subset cd ea ya) (np_unique ea) = map (count_list ea) (np_unique ea)"
    by (simp add: env_subset_def length_nonzero_eq)
  then show ?thesis by (simp only: sum_counts_unique)
qed

lemma init_without_env_array:
  assumes "items ds \<noteq> []"
  shows "SupportSet_init (Single ds) n None
           = SupportSet_init (Single ds) n (Some (replicate (length (items ds)) 0))"
  using assms by (simp add: SupportSet_init_def Let_def)

lemma init_len_invariant:
  assumes "SupportSet_init (Single ds) n ea_opt = Inr self"
      and "length (items ds) = length (targets ds)"
      and "case ea_opt of None \<Rightarrow> True | Some ea \<Rightarrow> length ea = length (items ds)"
  shows "len_view (combined_dataset self) = sum_list (map len_view (env_datasets self))"
proof (cases ea_opt)
  case (Some ea)
  with assms(2,3) have l: "length ea \<le> length (targets ds)" and e: "length ea = length (items ds)"
    by simp_all
  from init_with_env_array [OF l, of n] assms(1) Some show ?thesis
    by (auto simp: len_env_subsets e)
next
  case None
  show ?thesis
  proof (cases "items ds = []")
    case True
    with assms(1) None show ?thesis
      by (simp add: SupportSet_init_def combine_env_datasets_def Let_def)
  next
    case False
    let ?ea = "replicate (length (items ds)) (0::int)"
    have l: "length ?ea \<le> length (targets ds)" using assms(2) by simp
    from init_with_env_array [OF l, of n] assms(1) None init_without_env_array [OF False, of n]
    show ?thesis
      by (auto simp: len_env_subsets)
  qed
qed

lemma grouped_mset:
  "distinct us \<Longrightarrow>
     mset (concat (map (\<lambda>a. filter (\<lambda>p. fst p = a) zs) us)) = mset (filter (\<lambda>p. fst p \<in> set us) zs)"
proof (induction us)
  case Nil
  then show ?case by simp
next
  case (Cons u us)
  then have "mset (concat (map (\<lambda>a. filter (\<lambda>p. fst p = a) zs) (u # us)))
      = mset (filter (\<lambda>p. fst p = u) zs) + mset (filter (\<lambda>p. fst p \<in> set us) zs)"
    by simp
  also have "\<dots> = mset (filter (\<lambda>p. fst p \<in> set (u # us)) zs)"
    using Cons.prems by (induction zs) auto
  finally show ?case .
qed

lemma grouped_sorted:
  "sorted us \<Longrightarrow> sorted (map fst (concat (map (\<lambda>a. filter (\<lambda>p. fst p = a) zs) us)))"
proof (induction us)
  case Nil
  then show ?case by simp
next
  case (Cons u us)
  have "sorted (map fst (filter (\<lambda>p. fst p = u) zs))"
    by (induction zs) auto
  with Cons show ?case
    by (auto simp: sorted_append)
qed

lemma grouped_filter:
  "distinct us \<Longrightarrow> c \<in> set us \<Longrightarrow>
     filter (\<lambda>x. c = fst x) (concat (map (\<lambda>a. filter (\<lambda>p. fst p = a) zs) us))
       = filter (\<lambda>x. c = fst x) zs"
proof (induction us)
  case Nil
  then show ?case by simp
next
  case (Cons u us)
  have other: "filter (\<lambda>x. c = fst x) (concat (map (\<lambda>a. filter (\<lambda>p. fst p = a) zs) vs)) = []"
    if "c \<notin> set vs" for vs
    using that by (induction vs) (auto simp: filter_empty_conv)
  show ?case
  proof (cases "c = u")
    case True
    with Cons.prems have "c \<notin> set us" by simp
    from other [OF this] True show ?thesis
      by (simp add: conj_commute eq_commute [of u])
  next
    case False
    with Cons.prems have "c \<in> set us" "distinct us" by simp_all
    from Cons.IH [OF this(2,1)] False show ?thesis
      by (simp add: filter_empty_conv) 
  qed
qed

lemma grouped_is_stable_sort:
  assumes "distinct us" "sorted us" "fst ` set zs \<subseteq> set us"
  shows "concat (map (\<lambda>a. filter (\<lambda>p. fst p = a) zs) us) = sort_key fst zs"
proof -
  let ?G = "concat (map (\<lambda>a. filter (\<lambda>p. fst p = a) zs) us)"
  have "filter (\<lambda>p. fst p \<in> set us) zs = zs"
    using assms(3) by (auto simp: filter_id_conv)
  then have m: "mset ?G = mset zs"
    using grouped_mset [OF assms(1), of zs] by simp
  have f: "filter (\<lambda>x. fst k = fst x) ?G = filter (\<lambda>x. fst k = fst x) zs" if "k \<in> set ?G" for k
  proof -
    from that have "k \<in> set zs" by auto
    with assms(3) have "fst k \<in> set us" by auto
    then show ?thesis by (rule grouped_filter [OF assms(1)])
  qed
  show ?thesis
    by (rule properties_for_sort_key [OF m f grouped_sorted [OF assms(2)], symmetric])
qed

lemma env_targets_as_filter:
  assumes "length ea = length ya"
  shows "map (\<lambda>j. ya ! j) (nonzero_eq ea a) = map snd (filter (\<lambda>p. fst p = a) (zip ea ya))"
proof -
  have z: "zip ea ya = map (\<lambda>i. (ea ! i, ya ! i)) [0..<length ea]"
    using assms by (intro nth_equalityI) simp_all
  show ?thesis
    by (subst z) (simp add: nonzero_eq_def filter_map comp_def)
qed

lemma recombined_targets:
  assumes "length ea = length ya"
  shows "concat (map view_targets (map (env_subset cd ea ya) (np_unique ea)))
           = map snd (sort_key fst (zip ea ya))"
proof -
  have "concat (map view_targets (map (env_subset cd ea ya) (np_unique ea)))
          = concat (map (\<lambda>a. map snd (filter (\<lambda>p. fst p = a) (zip ea ya))) (np_unique ea))"
    by (simp add: env_subset_def env_targets_as_filter [OF assms] comp_def)
  also have "\<dots> = map snd (concat (map (\<lambda>a. filter (\<lambda>p. fst p = a) (zip ea ya)) (np_unique ea)))"
    by (simp add: map_concat comp_def)
  also have "concat (map (\<lambda>a. filter (\<lambda>p. fst p = a) (zip ea ya)) (np_unique ea))
               = sort_key fst (zip ea ya)"
    using assms by (intro grouped_is_stable_sort) (auto simp: np_unique_def dest: set_zip_leftD)
  finally show ?thesis .
qed

lemma np_unique_Nil: "(np_unique ea = []) = (ea = [])"
proof -
  have "set (np_unique ea) = set ea" by (simp add: np_unique_def)
  then show ?thesis by (metis set_empty)
qed

lemma combine_after_separate:
  assumes "length ea = length ya" "ea \<noteq> []"
      and "env_datasets self = map (env_subset cd ea ya) (np_unique ea)"
  shows "\<exists>self1. combine_env_datasets self (env_datasets self)
           = Inr (ConcatDataset (env_datasets self) (map snd (sort_key fst (zip ea ya))), self1)"
proof -
  let ?envs = "map (env_subset cd ea ya) (np_unique ea)"
  let ?tg = "map snd (sort_key fst (zip ea ya))"
  have ne: "?envs \<noteq> []" using assms(2) by (simp add: np_unique_Nil)
  have tg: "concat (map view_targets ?envs) = ?tg"
    by (rule recombined_targets [OF assms(1)])
  have "sum_list (map len_view ?envs) = length ea"
    using len_env_subsets [of cd ea ya] by (simp add: comp_def)
  moreover have "length ?tg = length ea" using assms(1) by simp
  ultimately have len: "len_view (ConcatDataset ?envs ?tg) = length ?tg" by simp
  show ?thesis
    unfolding combine_env_datasets_def Let_def
    using ne tg len by (simp add: assms(3))
qed

text \<open>
  Claim C3, as amended. For a dataset with an environment array of the length of its label
  array, the constructor partitions it; recombining the per-environment views with
  \<^verbatim>\<open>_combine_env_datasets\<close> fails with \<^verbatim>\<open>AssertionError\<close> when the dataset is empty, and
  otherwise yields the labels sorted stably by environment id: a permutation of the
  original label array, equal to it in the same order when the environment array is in
  ascending order.
\<close>

theorem separate_then_combine:
  assumes "length ea = length (targets ds)"
  shows "\<exists>self. SupportSet_init (Single ds) n (Some ea) = Inr self \<and>
          (if ea = [] then combine_env_datasets self (env_datasets self) = Inl AssertionError
           else (\<exists>cd self1. combine_env_datasets self (env_datasets self) = Inr (cd, self1)
                  \<and> view_targets cd = map snd (sort_key fst (zip ea (targets ds)))
                  \<and> mset (view_targets cd) = mset (targets ds)
                  \<and> (sorted ea \<longrightarrow> view_targets cd = targets ds)))"
proof -
  let ?ya = "targets ds"
  let ?tg = "map snd (sort_key fst (zip ea ?ya))"
  from assms have "length ea \<le> length ?ya" by simp
  from init_with_env_array [OF this, of n] obtain self where
      i: "SupportSet_init (Single ds) n (Some ea) = Inr self"
    and e: "env_datasets self = map (env_subset (DatasetMetadata ds ea) ea ?ya) (np_unique ea)"
    by blast
  show ?thesis
  proof (cases "ea = []")
    case True
    then have "env_datasets self = []" using e by (simp add: np_unique_def)
    then have "combine_env_datasets self (env_datasets self) = Inl AssertionError"
      by (simp add: combine_env_datasets_def)
    with i True show ?thesis by simp
  next
    case False
    from combine_after_separate [OF assms False e] obtain self1 where
      c: "combine_env_datasets self (env_datasets self)
            = Inr (ConcatDataset (env_datasets self) ?tg, self1)"
      by blast
    have m: "mset ?tg = mset ?ya"
    proof -
      have "mset ?tg = image_mset snd (mset (sort_key fst (zip ea ?ya)))" by simp
      also have "\<dots> = image_mset snd (mset (zip ea ?ya))" by simp
      also have "\<dots> = mset (map snd (zip ea ?ya))" by simp
      also have "\<dots> = mset ?ya" using assms by simp
      finally show ?thesis .
    qed
    have s: "?tg = ?ya" if "sorted ea"
    proof -
      have "sorted (map fst (zip ea ?ya))" using that assms by simp
      then have "sort_key fst (zip ea ?ya) = zip ea ?ya" by (rule sort_key_id_if_sorted)
      then show ?thesis using assms by simp
    qed
    from i c m s False show ?thesis by auto
  qed
qed

lemma demo_sorted_env_facts:
  "length demo_sorted_env = length (targets demo_ds) \<and> sorted demo_sorted_env \<and> demo_sorted_env \<noteq> []"
  by code_simp

theorem separate_then_combine_witness:
  "length demo_sorted_env = length (targets demo_ds) \<and> sorted demo_sorted_env
   \<and> (\<exists>self cd self1. SupportSet_init (Single demo_ds) 3 (Some demo_sorted_env) = Inr self
         \<and> combine_env_datasets self (env_datasets self) = Inr (cd, self1)
         \<and> view_targets cd = targets demo_ds)"
proof -
  have l: "length demo_sorted_env = length (targets demo_ds)"
    using demo_sorted_env_facts by simp
  from separate_then_combine [OF l, of 3] demo_sorted_env_facts
  have "\<exists>self cd self1. SupportSet_init (Single demo_ds) 3 (Some demo_sorted_env) = Inr self
         \<and> combine_env_datasets self (env_datasets self) = Inr (cd, self1)
         \<and> view_targets cd = targets demo_ds"
    by (auto split: if_splits)
  with demo_sorted_env_facts show ?thesis by simp
qed

text \<open>
  The round trip as stated, for every dataset, fails: with the environment array \<open>[1, 0]\<close>
  the labels \<open>[0, 1]\<close> come back as \<open>[1, 0]\<close>, and for the empty dataset the recombination
  raises \<^verbatim>\<open>AssertionError\<close>.
\<close>

theorem separate_then_combine_counterexample:
  "(case SupportSet_init (Single \<lparr>items = [10, 11 :: nat], targets = [0, 1]\<rparr>) 2 (Some [1, 0]) of
      Inl e \<Rightarrow> False
    | Inr s \<Rightarrow>
       (case combine_env_datasets s (env_datasets s) of
          Inl e \<Rightarrow> False
        | Inr (cd, s1) \<Rightarrow> y_array s = [0, 1] \<and> view_targets cd = [1, 0]))
   \<and> (case SupportSet_init (Single \<lparr>items = ([] :: nat list), targets = []\<rparr>) 2 (Some []) of
      Inl e \<Rightarrow> False
    | Inr s \<Rightarrow>
       (case combine_env_datasets s (env_datasets s) of
          Inl e \<Rightarrow> e = AssertionError
        | Inr r \<Rightarrow> False))"
  by code_simp

text \<open>
  Claim C8, evaluated on a list of datasets. The constructor reads \<^verbatim>\<open>support_set.targets\<close>
  first, which a Python list does not have: no support set is constructed from a list of
  per-environment datasets, whatever the other arguments. (For one dataset, with or without
  an environment array, the lengths agree: \<open>init_len_invariant\<close>.)
\<close>

theorem list_of_datasets_not_constructed:
  "SupportSet_init (EnvList dss) n ea_opt = Inl (AttributeError ''targets'')"
  by (simp add: SupportSet_init_def)

end
